theory Spec2Isabelle
  imports Main
begin

section \<open>The block-unwind prototype: data model\<close>

text \<open>
  The machine of \<^verbatim>\<open>experiments/block-unwind-prototype.py\<close>: a stack machine with a
  data stack, a function (call) stack, a block stack of catch and defer records, an
  unwind reason and an instruction pointer.

  Values are Python ints and strings. Python's \<^verbatim>\<open>bool\<close> is a subclass of \<^verbatim>\<open>int\<close>
  with \<^verbatim>\<open>True == 1\<close> and \<^verbatim>\<open>False == 0\<close>; the result of the compare operation is kept as
  the int, so that HOL equality on values is Python's \<^verbatim>\<open>==\<close>. Standard output is not
  part of the state.
\<close>

datatype val = I int | S string

datatype error = Exception string | IndexError | TypeError | ValueError

text \<open>
  The instruction pointer is a list offset, the string \<^verbatim>\<open>"err"\<close> (the return address of
  the initial frame) or \<^verbatim>\<open>None\<close> (the continue offset of a block pushed without one).
\<close>

datatype addr = Addr nat | AddrErr | AddrNone

datatype reason = UNWIND_EXCEPTION | UNWIND_RETURN

text \<open>
  A frame is the Python list \<^verbatim>\<open>[return_address, locals, top_block]\<close>; a block is the tuple
  \<^verbatim>\<open>(block_type, handler_offset, continue_offset, parent_block, active_frame)\<close>.
  The block holds a reference to the frame object, and the locals of a frame are
  mutated in place, so a frame is represented by its identity \<open>fid\<close> together with its
  two immutable fields; the mutable locals live in a store indexed by \<open>fid\<close>.
\<close>

datatype frame = Frame (fid: nat) (ret: addr) (marker: "block option")
  and block = Block (kind: string) (handler: nat) (cont: "nat option")
                    (parent: "block option") (owner: frame)

record state =
  data_stack :: "val list"
  function_stack :: "frame list"
  block_stack :: "block list"
  unwind_reason :: "reason option"
  instruction_ptr :: addr
  exit_code :: val
  locals :: "val list list"
  stdin :: "int option list"
  halted :: bool

text \<open>
  The three stacks keep their top at the head of the list. \<open>locals s ! fid f\<close> is the
  locals array of frame \<open>f\<close>. \<open>stdin\<close> holds the lines still to be read, \<open>None\<close> for a
  line that \<^verbatim>\<open>int()\<close> rejects.
\<close>

definition OP_LOAD :: int where "OP_LOAD = 1"
definition OP_ADD :: int where "OP_ADD = 2"
definition OP_PRINT :: int where "OP_PRINT = 3"
definition OP_JMP :: int where "OP_JMP = 4"
definition OP_JMPIF :: int where "OP_JMPIF = 5"
definition OP_CMP :: int where "OP_CMP = 6"
definition OP_SETUPCATCH :: int where "OP_SETUPCATCH = 7"
definition OP_SETUPDEFER :: int where "OP_SETUPDEFER = 8"
definition OP_UNWIND :: int where "OP_UNWIND = 9"
definition OP_DEFERCONTINUE :: int where "OP_DEFERCONTINUE = 10"
definition OP_THROW :: int where "OP_THROW = 11"
definition OP_CALL :: int where "OP_CALL = 12"
definition OP_RET :: int where "OP_RET = 13"
definition OP_WRITELOCAL :: int where "OP_WRITELOCAL = 14"
definition OP_LOADLOCAL :: int where "OP_LOADLOCAL = 15"
definition OP_GETNUMBER :: int where "OP_GETNUMBER = 16"
definition OP_EXIT :: int where "OP_EXIT = 17"
definition OP_ABORT :: int where "OP_ABORT = 18"
definition OP_DUP :: int where "OP_DUP = 19"

definition opcode_names :: "string list" where
  "opcode_names = [''-'', ''load'', ''add'', ''print'', ''jmp'', ''jmpif'', ''cmp'',
     ''setupcatch'', ''setupdefer'', ''unwind'', ''defercontinue'', ''throw'', ''call'',
     ''ret'', ''writelocal'', ''loadlocal'', ''getnumber'', ''exit'', ''abort'', ''dup'']"

definition init_state :: "int option list \<Rightarrow> state" where
  "init_state input =
     \<lparr> data_stack = [],
       function_stack = [Frame 0 AddrErr None],
       block_stack = [],
       unwind_reason = None,
       instruction_ptr = Addr 0,
       exit_code = I 0,
       locals = [[I 0, I 0, I 0, I 0]],
       stdin = input,
       halted = False \<rparr>"

section \<open>Python list access and equality\<close>

text \<open>\<^verbatim>\<open>xs[i]\<close> for a Python int: negative indices count from the end.\<close>

definition py_get :: "'a list \<Rightarrow> int \<Rightarrow> 'a option" where
  "py_get xs i =
     (let n = int (length xs); j = (if i < 0 then n + i else i)
      in if 0 \<le> j \<and> j < n then Some (xs ! nat j) else None)"

definition py_set :: "'a list \<Rightarrow> int \<Rightarrow> 'a \<Rightarrow> 'a list option" where
  "py_set xs i v =
     (let n = int (length xs); j = (if i < 0 then n + i else i)
      in if 0 \<le> j \<and> j < n then Some (xs[nat j := v]) else None)"

text \<open>\<^verbatim>\<open>code_memory[n]\<close> for an offset that is never negative.\<close>

definition at :: "'a list \<Rightarrow> nat \<Rightarrow> 'a option" where
  "at xs n = (if n < length xs then Some (xs ! n) else None)"

text \<open>
  Python's \<^verbatim>\<open>==\<close> on frames (lists) and blocks (tuples) is structural: it compares the
  fields one by one and reads the current locals of each frame. (The interpreter's
  recursion limit on very deeply nested values is not modelled.)
\<close>

fun frame_eq :: "val list list \<Rightarrow> frame \<Rightarrow> frame \<Rightarrow> bool"
  and block_eq :: "val list list \<Rightarrow> block \<Rightarrow> block \<Rightarrow> bool"
  and block_opt_eq :: "val list list \<Rightarrow> block option \<Rightarrow> block option \<Rightarrow> bool"
where
  "frame_eq L (Frame i r m) (Frame j r' m') =
     (r = r' \<and> L ! i = L ! j \<and> block_opt_eq L m m')"
| "block_eq L (Block k h c p f) (Block k' h' c' p' f') =
     (k = k' \<and> h = h' \<and> c = c' \<and> block_opt_eq L p p' \<and> frame_eq L f f')"
| "block_opt_eq L None None = True"
| "block_opt_eq L (Some b) (Some b') = block_eq L b b'"
| "block_opt_eq L None (Some b') = False"
| "block_opt_eq L (Some b) None = False"

section \<open>Labels\<close>

fun digits :: "nat \<Rightarrow> string" where
  "digits n = (if n < 10 then [''0123456789'' ! n]
               else digits (n div 10) @ [''0123456789'' ! (n mod 10)])"

declare digits.simps [simp del]

definition str_of_int :: "int \<Rightarrow> string" where
  "str_of_int n = (if n < 0 then ''-'' @ digits (nat (- n)) else digits (nat n))"

text \<open>The f-string \<^verbatim>\<open>f".{label}"\<close>.\<close>

definition label_string :: "val \<Rightarrow> string" where
  "label_string label = (case label of S s \<Rightarrow> ''.'' @ s | I n \<Rightarrow> ''.'' @ str_of_int n)"

fun index_of :: "'a \<Rightarrow> 'a list \<Rightarrow> nat option" where
  "index_of x [] = None"
| "index_of x (y # ys) = (if y = x then Some 0 else map_option Suc (index_of x ys))"

definition resolve_label :: "val list \<Rightarrow> val \<Rightarrow> nat option" where
  "resolve_label code_memory label = index_of (S (label_string label)) code_memory"

section \<open>Block stack\<close>

definition last_block :: "string \<Rightarrow> block list \<Rightarrow> block option" where
  "last_block block_type bs = find (\<lambda>b. kind b = block_type) bs"

definition push_block :: "val list \<Rightarrow> string \<Rightarrow> val \<Rightarrow> val option \<Rightarrow> state \<Rightarrow> error + state" where
  "push_block code_memory block_type handler_label continue_label s =
     (let parent_block = last_block block_type (block_stack s) in
      case function_stack s of
        [] \<Rightarrow> Inl IndexError
      | active_frame # _ \<Rightarrow>
          (case resolve_label code_memory handler_label of
             None \<Rightarrow> Inl ValueError
           | Some handler_offset \<Rightarrow>
               (case continue_label of
                  Some l \<Rightarrow>
                    (case resolve_label code_memory l of
                       None \<Rightarrow> Inl ValueError
                     | Some continue_offset \<Rightarrow>
                         Inr (s\<lparr>block_stack :=
                                Block block_type handler_offset (Some continue_offset)
                                  parent_block active_frame # block_stack s\<rparr>))
                | None \<Rightarrow>
                    Inr (s\<lparr>block_stack :=
                           Block block_type handler_offset None parent_block active_frame
                             # block_stack s\<rparr>))))"

section \<open>The unwinding engine\<close>

text \<open>
  The loop \<^verbatim>\<open>while top_block[4] != top_frame: function_stack.pop(); top_frame =
  function_stack[-1]\<close>. It returns the frames that are left, or \<open>None\<close> when the last
  frame has been popped and \<^verbatim>\<open>function_stack[-1]\<close> raises.
\<close>

fun pop_frames :: "val list list \<Rightarrow> frame \<Rightarrow> frame list \<Rightarrow> frame list option" where
  "pop_frames L ow [] = None"
| "pop_frames L ow (top_frame # fs) =
     (if frame_eq L ow top_frame then Some (top_frame # fs) else pop_frames L ow fs)"

definition unwind_block :: "state \<Rightarrow> error + state" where
  "unwind_block s =
     (case block_stack s of
        [] \<Rightarrow> Inl (Exception ''block stack empty'')
      | top_block # bs \<Rightarrow>
     (case function_stack s of
        [] \<Rightarrow> Inl (Exception ''function stack empty'')
      | top_frame # fs \<Rightarrow>
     (case unwind_reason s of
        Some UNWIND_EXCEPTION \<Rightarrow>
          (case pop_frames (locals s) (owner top_block) (top_frame # fs) of
             None \<Rightarrow> Inl IndexError
           | Some fs' \<Rightarrow>
               if kind top_block = ''catch'' then
                 Inr (s\<lparr>function_stack := fs', block_stack := bs, unwind_reason := None,
                        instruction_ptr := Addr (handler top_block)\<rparr>)
               else if kind top_block = ''defer'' then
                 Inr (s\<lparr>function_stack := fs',
                        instruction_ptr := Addr (handler top_block)\<rparr>)
               else Inl (Exception ''unexpected block type''))
      | Some UNWIND_RETURN \<Rightarrow>
          (case last_block ''defer'' (block_stack s) of
             None \<Rightarrow>
               Inr (s\<lparr>block_stack :=
                        dropWhile (\<lambda>b. frame_eq (locals s) (owner b) top_frame) (block_stack s),
                      instruction_ptr := ret top_frame,
                      function_stack := fs\<rparr>)
           | Some last_defer_block \<Rightarrow>
               if frame_eq (locals s) (owner last_defer_block) top_frame then
                 Inr (s\<lparr>block_stack :=
                          dropWhile (\<lambda>b. \<not> block_eq (locals s) b last_defer_block) (block_stack s),
                        instruction_ptr := Addr (handler last_defer_block)\<rparr>)
               else
                 Inr (s\<lparr>instruction_ptr := ret top_frame,
                        unwind_reason := None,
                        function_stack := fs,
                        block_stack :=
                          dropWhile (\<lambda>b. frame_eq (locals s) (owner b) top_frame) (block_stack s)\<rparr>))
      | None \<Rightarrow> Inl (Exception ''expected unwind reason''))))"

section \<open>The execution loop\<close>

definition truthy :: "val \<Rightarrow> bool" where
  "truthy v = (case v of I n \<Rightarrow> n \<noteq> 0 | S s \<Rightarrow> s \<noteq> [])"

definition op_load :: "val list \<Rightarrow> nat \<Rightarrow> state \<Rightarrow> error + state" where
  "op_load code_memory i s =
     (case at code_memory (i + 1) of
        None \<Rightarrow> Inl IndexError
      | Some v \<Rightarrow> Inr (s\<lparr>data_stack := v # data_stack s, instruction_ptr := Addr (i + 2)\<rparr>))"

definition op_getnumber :: "nat \<Rightarrow> state \<Rightarrow> error + state" where
  "op_getnumber i s =
     (case stdin s of
        [] \<Rightarrow> Inl ValueError
      | None # _ \<Rightarrow> Inl ValueError
      | Some n # rest \<Rightarrow>
          Inr (s\<lparr>data_stack := I n # data_stack s, stdin := rest,
                 instruction_ptr := Addr (i + 1)\<rparr>))"

text \<open>
  \<^verbatim>\<open>function_stack[-1][1][offset] = data_stack.pop()\<close>: Python evaluates the right-hand
  side first, then the target.
\<close>

definition op_writelocal :: "val list \<Rightarrow> nat \<Rightarrow> state \<Rightarrow> error + state" where
  "op_writelocal code_memory i s =
     (case at code_memory (i + 1) of
        None \<Rightarrow> Inl IndexError
      | Some offset \<Rightarrow>
     (case data_stack s of
        [] \<Rightarrow> Inl IndexError
      | v # ds \<Rightarrow>
     (case function_stack s of
        [] \<Rightarrow> Inl IndexError
      | f # _ \<Rightarrow>
     (case offset of
        S _ \<Rightarrow> Inl TypeError
      | I k \<Rightarrow>
     (case py_set (locals s ! fid f) k v of
        None \<Rightarrow> Inl IndexError
      | Some ls \<Rightarrow>
          Inr (s\<lparr>data_stack := ds, locals := (locals s)[fid f := ls],
                 instruction_ptr := Addr (i + 2)\<rparr>))))))"

definition op_loadlocal :: "val list \<Rightarrow> nat \<Rightarrow> state \<Rightarrow> error + state" where
  "op_loadlocal code_memory i s =
     (case at code_memory (i + 1) of
        None \<Rightarrow> Inl IndexError
      | Some offset \<Rightarrow>
     (case function_stack s of
        [] \<Rightarrow> Inl IndexError
      | f # _ \<Rightarrow>
     (case offset of
        S _ \<Rightarrow> Inl TypeError
      | I k \<Rightarrow>
     (case py_get (locals s ! fid f) k of
        None \<Rightarrow> Inl IndexError
      | Some v \<Rightarrow>
          Inr (s\<lparr>data_stack := v # data_stack s, instruction_ptr := Addr (i + 2)\<rparr>)))))"

definition op_setupcatch :: "val list \<Rightarrow> nat \<Rightarrow> state \<Rightarrow> error + state" where
  "op_setupcatch code_memory i s =
     (case at code_memory (i + 1) of
        None \<Rightarrow> Inl IndexError
      | Some handler_label \<Rightarrow>
     (case at code_memory (i + 2) of
        None \<Rightarrow> Inl IndexError
      | Some continue_label \<Rightarrow>
     (case push_block code_memory ''catch'' handler_label (Some continue_label) s of
        Inl e \<Rightarrow> Inl e
      | Inr t \<Rightarrow> Inr (t\<lparr>instruction_ptr := Addr (i + 2)\<rparr>))))"

definition op_setupdefer :: "val list \<Rightarrow> nat \<Rightarrow> state \<Rightarrow> error + state" where
  "op_setupdefer code_memory i s =
     (case at code_memory (i + 1) of
        None \<Rightarrow> Inl IndexError
      | Some handler_label \<Rightarrow>
     (case at code_memory (i + 2) of
        None \<Rightarrow> Inl IndexError
      | Some continue_label \<Rightarrow>
     (case push_block code_memory ''defer'' handler_label (Some continue_label) s of
        Inl e \<Rightarrow> Inl e
      | Inr t \<Rightarrow> Inr (t\<lparr>instruction_ptr := Addr (i + 3)\<rparr>))))"

definition op_jmp :: "val list \<Rightarrow> nat \<Rightarrow> state \<Rightarrow> error + state" where
  "op_jmp code_memory i s =
     (case at code_memory (i + 1) of
        None \<Rightarrow> Inl IndexError
      | Some label \<Rightarrow>
     (case resolve_label code_memory label of
        None \<Rightarrow> Inl ValueError
      | Some offset \<Rightarrow> Inr (s\<lparr>instruction_ptr := Addr offset\<rparr>)))"

definition op_jmpif :: "val list \<Rightarrow> nat \<Rightarrow> state \<Rightarrow> error + state" where
  "op_jmpif code_memory i s =
     (case data_stack s of
        [] \<Rightarrow> Inl IndexError
      | v # ds \<Rightarrow>
          if truthy v then
            (case at code_memory (i + 1) of
               None \<Rightarrow> Inl IndexError
             | Some label \<Rightarrow>
            (case resolve_label code_memory label of
               None \<Rightarrow> Inl ValueError
             | Some offset \<Rightarrow> Inr (s\<lparr>data_stack := ds, instruction_ptr := Addr offset\<rparr>)))
          else Inr (s\<lparr>data_stack := ds, instruction_ptr := Addr (i + 2)\<rparr>))"

definition op_print :: "nat \<Rightarrow> state \<Rightarrow> error + state" where
  "op_print i s =
     (case data_stack s of
        [] \<Rightarrow> Inl IndexError
      | v # ds \<Rightarrow> Inr (s\<lparr>data_stack := ds, instruction_ptr := Addr (i + 1)\<rparr>))"

definition op_call :: "val list \<Rightarrow> nat \<Rightarrow> state \<Rightarrow> error + state" where
  "op_call code_memory i s =
     (case at code_memory (i + 1) of
        None \<Rightarrow> Inl IndexError
      | Some call_label \<Rightarrow>
     (case resolve_label code_memory call_label of
        None \<Rightarrow> Inl ValueError
      | Some call_offset \<Rightarrow>
          (let top_block = (case block_stack s of [] \<Rightarrow> None | b # _ \<Rightarrow> Some b) in
           Inr (s\<lparr>function_stack :=
                    Frame (length (locals s)) (Addr (i + 2)) top_block # function_stack s,
                  locals := locals s @ [[I 9999, I 9999, I 9999, I 9999]],
                  instruction_ptr := Addr call_offset\<rparr>))))"

definition py_add :: "val \<Rightarrow> val \<Rightarrow> val option" where
  "py_add lhs rhs =
     (case (lhs, rhs) of
        (I a, I b) \<Rightarrow> Some (I (a + b))
      | (S a, S b) \<Rightarrow> Some (S (a @ b))
      | _ \<Rightarrow> None)"

definition op_add :: "nat \<Rightarrow> state \<Rightarrow> error + state" where
  "op_add i s =
     (case data_stack s of
        rhs # lhs # ds \<Rightarrow>
          (case py_add lhs rhs of
             None \<Rightarrow> Inl TypeError
           | Some v \<Rightarrow> Inr (s\<lparr>data_stack := v # ds, instruction_ptr := Addr (i + 1)\<rparr>))
      | _ \<Rightarrow> Inl IndexError)"

definition op_cmp :: "nat \<Rightarrow> state \<Rightarrow> error + state" where
  "op_cmp i s =
     (case data_stack s of
        rhs # lhs # ds \<Rightarrow>
          Inr (s\<lparr>data_stack := I (if lhs = rhs then 1 else 0) # ds,
                 instruction_ptr := Addr (i + 1)\<rparr>)
      | _ \<Rightarrow> Inl IndexError)"

definition op_unwind :: "state \<Rightarrow> error + state" where
  "op_unwind s =
     (case block_stack s of
        [] \<Rightarrow> Inl (Exception ''empty block stack'')
      | top_block # bs \<Rightarrow>
          if kind top_block = ''catch'' then
            Inr (s\<lparr>instruction_ptr :=
                     (case cont top_block of None \<Rightarrow> AddrNone | Some c \<Rightarrow> Addr c),
                   block_stack := bs\<rparr>)
          else if kind top_block = ''defer'' then
            Inr (s\<lparr>instruction_ptr := Addr (handler top_block)\<rparr>)
          else Inl (Exception ''unexpected block type''))"

definition op_defercontinue :: "state \<Rightarrow> error + state" where
  "op_defercontinue s =
     (if length (block_stack s) < 2 then Inl (Exception ''empty block stack'')
      else
        (case block_stack s of
           [] \<Rightarrow> Inl IndexError
         | top_block # bs \<Rightarrow>
             if unwind_reason s \<noteq> None then unwind_block (s\<lparr>block_stack := bs\<rparr>)
             else
               Inr (s\<lparr>block_stack := bs,
                      instruction_ptr :=
                        (case cont top_block of None \<Rightarrow> AddrNone | Some c \<Rightarrow> Addr c)\<rparr>)))"

definition op_ret :: "state \<Rightarrow> error + state" where
  "op_ret s =
     (case function_stack s of
        [] \<Rightarrow> Inl IndexError
      | active_frame # fs \<Rightarrow>
          (case block_stack s of
             top_block # _ \<Rightarrow>
               if \<not> block_opt_eq (locals s) (marker active_frame) (Some top_block) then
                 unwind_block (s\<lparr>unwind_reason := Some UNWIND_RETURN\<rparr>)
               else
                 Inr (s\<lparr>function_stack := fs, instruction_ptr := ret active_frame\<rparr>)
           | [] \<Rightarrow>
               Inr (s\<lparr>function_stack := fs, instruction_ptr := ret active_frame\<rparr>)))"

definition op_throw :: "state \<Rightarrow> error + state" where
  "op_throw s =
     (case last_block ''catch'' (block_stack s) of
        None \<Rightarrow> Inl (Exception ''no exception handler found'')
      | Some last_catch \<Rightarrow> unwind_block (s\<lparr>unwind_reason := Some UNWIND_EXCEPTION\<rparr>))"

definition op_exit :: "state \<Rightarrow> error + state" where
  "op_exit s =
     (case data_stack s of
        [] \<Rightarrow> Inl IndexError
      | v # ds \<Rightarrow> Inr (s\<lparr>data_stack := ds, exit_code := v, halted := True\<rparr>))"

definition op_dup :: "nat \<Rightarrow> state \<Rightarrow> error + state" where
  "op_dup i s =
     (case data_stack s of
        [] \<Rightarrow> Inl (Exception ''empty stack'')
      | v # ds \<Rightarrow> Inr (s\<lparr>data_stack := v # v # ds, instruction_ptr := Addr (i + 1)\<rparr>))"

definition unexpected_opcode :: "int \<Rightarrow> error" where
  "unexpected_opcode opcode =
     (case py_get opcode_names opcode of
        None \<Rightarrow> IndexError
      | Some name \<Rightarrow> Exception (''unexpected opcode: '' @ name))"

definition exec_op :: "val list \<Rightarrow> int \<Rightarrow> nat \<Rightarrow> state \<Rightarrow> error + state" where
  "exec_op code_memory opcode i s =
     (if opcode = OP_LOAD then op_load code_memory i s
      else if opcode = OP_GETNUMBER then op_getnumber i s
      else if opcode = OP_WRITELOCAL then op_writelocal code_memory i s
      else if opcode = OP_SETUPCATCH then op_setupcatch code_memory i s
      else if opcode = OP_SETUPDEFER then op_setupdefer code_memory i s
      else if opcode = OP_JMP then op_jmp code_memory i s
      else if opcode = OP_JMPIF then op_jmpif code_memory i s
      else if opcode = OP_LOADLOCAL then op_loadlocal code_memory i s
      else if opcode = OP_PRINT then op_print i s
      else if opcode = OP_CALL then op_call code_memory i s
      else if opcode = OP_ADD then op_add i s
      else if opcode = OP_CMP then op_cmp i s
      else if opcode = OP_UNWIND then op_unwind s
      else if opcode = OP_DEFERCONTINUE then op_defercontinue s
      else if opcode = OP_RET then op_ret s
      else if opcode = OP_THROW then op_throw s
      else if opcode = OP_EXIT then op_exit s
      else if opcode = OP_ABORT then Inl (Exception ''internal error'')
      else if opcode = OP_DUP then op_dup i s
      else Inl (unexpected_opcode opcode))"

text \<open>
  One iteration of the \<^verbatim>\<open>while True\<close> loop: fetch, skip a string as a label, or
  dispatch on the opcode.
\<close>

definition step :: "val list \<Rightarrow> state \<Rightarrow> error + state" where
  "step code_memory s =
     (case instruction_ptr s of
        AddrErr \<Rightarrow> Inl TypeError
      | AddrNone \<Rightarrow> Inl TypeError
      | Addr i \<Rightarrow>
          (case at code_memory i of
             None \<Rightarrow> Inl IndexError
           | Some (S _) \<Rightarrow> Inr (s\<lparr>instruction_ptr := Addr (i + 1)\<rparr>)
           | Some (I opcode) \<Rightarrow> exec_op code_memory opcode i s))"

text \<open>The loop, with fuel: it stops at the \<^verbatim>\<open>break\<close> of the exit operation or at a raise.\<close>

fun run :: "val list \<Rightarrow> nat \<Rightarrow> state \<Rightarrow> error + state" where
  "run code_memory 0 s = Inr s"
| "run code_memory (Suc n) s =
     (if halted s then Inr s
      else (case step code_memory s of Inl e \<Rightarrow> Inl e | Inr t \<Rightarrow> run code_memory n t))"

text \<open>The states the loop can be in, for a program and an input.\<close>

inductive reachable :: "val list \<Rightarrow> int option list \<Rightarrow> state \<Rightarrow> bool"
  for code_memory :: "val list" and input :: "int option list"
where
  reachable_init: "reachable code_memory input (init_state input)"
| reachable_step:
    "reachable code_memory input s \<Longrightarrow> \<not> halted s \<Longrightarrow> step code_memory s = Inr t
       \<Longrightarrow> reachable code_memory input t"

section \<open>The program of the prototype\<close>

definition code_memory :: "val list" where
  "code_memory =
   [S ''.main'',
      I OP_GETNUMBER,
      I OP_GETNUMBER,
      I OP_WRITELOCAL, I 1,
      I OP_WRITELOCAL, I 0,
      I OP_LOAD, I 42,
      I OP_WRITELOCAL, I 2,
      I OP_SETUPCATCH, S ''main#L3'', S ''main#L4'',
      I OP_SETUPDEFER, S ''main#L1'', S ''main#L2'',
      I OP_LOADLOCAL, I 0,
      I OP_LOADLOCAL, I 1,
      I OP_CALL, S ''prevent_14'',
      I OP_WRITELOCAL, I 2,
      I OP_UNWIND,
    S ''.main#L1'',
      I OP_LOADLOCAL, I 2,
      I OP_PRINT,
      I OP_DEFERCONTINUE,
    S ''.main#L2'',
      I OP_UNWIND,
    S ''.main#L3'',
      I OP_LOAD, I 3333,
      I OP_WRITELOCAL, I 2,
    S ''.main#L4'',
      I OP_LOADLOCAL, I 2,
      I OP_EXIT,
    S ''.add'',
      I OP_SETUPDEFER, S ''add#L3'', S ''add#L4'',
      I OP_SETUPCATCH, S ''add#L1'', S ''add#L2'',
      I OP_ADD,
      I OP_THROW,
    S ''.add#L1'',
      I OP_LOAD, S ''inside add catch handler'',
      I OP_PRINT,
      I OP_DUP,
      I OP_PRINT,
      I OP_RET,
    S ''.add#L2'',
      I OP_ABORT,
    S ''.add#L3'',
      I OP_LOAD, S ''inside add defer block'',
      I OP_PRINT,
      I OP_DEFERCONTINUE,
    S ''.add#L4'',
      I OP_ABORT,
    S ''.prevent_14'',
      I OP_SETUPDEFER, S ''prevent_14#L1'', S ''prevent_14#L2'',
      I OP_CALL, S ''add'',
      I OP_WRITELOCAL, I 0,
      I OP_LOADLOCAL, I 0,
      I OP_LOAD, I 14,
      I OP_CMP,
      I OP_JMPIF, S ''prevent_14#L3'',
      I OP_LOADLOCAL, I 0,
      I OP_RET,
    S ''.prevent_14#L1'',
      I OP_LOAD, S ''inside prevent 14 defer block'',
      I OP_PRINT,
      I OP_DEFERCONTINUE,
    S ''.prevent_14#L2'',
      I OP_ABORT,
    S ''.prevent_14#L3'',
      I OP_THROW]"

section \<open>Auxiliary notions for the properties\<close>

text \<open>
  The nesting depth of the references a frame or block holds. Python's structural
  equality can only identify values of the same depth.
\<close>

fun frame_depth :: "frame \<Rightarrow> nat"
  and block_depth :: "block \<Rightarrow> nat"
  and block_opt_depth :: "block option \<Rightarrow> nat"
where
  "frame_depth (Frame i r m) = block_opt_depth m"
| "block_depth (Block k h c p f) = Suc (frame_depth f)"
| "block_opt_depth None = 0"
| "block_opt_depth (Some b) = block_depth b"

text \<open>
  The nesting discipline of the two stacks: frames are numbered in call order, every
  block is owned by a frame that is on the function stack, the blocks of a frame lie
  above the blocks of its callers, and only catch and defer blocks exist.
\<close>

definition well_nested :: "state \<Rightarrow> bool" where
  "well_nested s \<longleftrightarrow>
     sorted_wrt (>) (map fid (function_stack s)) \<and>
     (\<forall>f\<in>set (function_stack s). fid f < length (locals s)) \<and>
     (\<forall>b\<in>set (block_stack s). owner b \<in> set (function_stack s)) \<and>
     sorted_wrt (\<ge>) (map (\<lambda>b. fid (owner b)) (block_stack s)) \<and>
     (\<forall>b\<in>set (block_stack s). kind b = ''catch'' \<or> kind b = ''defer'')"



section \<open>Further programs\<close>

text \<open>A function that sets up a catch region and returns inside it.\<close>

definition prog_ret_in_catch :: "val list" where
  "prog_ret_in_catch =
   [S ''.main'',
      I OP_CALL, S ''f'',
      I OP_LOAD, I 0,
      I OP_EXIT,
    S ''.f'',
      I OP_SETUPCATCH, S ''h'', S ''r'',
      I OP_RET,
    S ''.h'',
    S ''.r'',
      I OP_ABORT]"

text \<open>A function that leaves a catch region of its caller and then returns.\<close>

definition prog_callee_exit :: "val list" where
  "prog_callee_exit =
   [S ''.main'',
      I OP_SETUPCATCH, S ''h'', S ''r'',
      I OP_SETUPCATCH, S ''h'', S ''r'',
      I OP_CALL, S ''f'',
      I OP_LOAD, I 0,
      I OP_EXIT,
    S ''.f'',
      I OP_UNWIND,
    S ''.r'',
      I OP_RET,
    S ''.h'',
      I OP_ABORT]"

text \<open>A defer region that is the only block, left by the unwind operation.\<close>

definition prog_single_defer :: "val list" where
  "prog_single_defer =
   [S ''.main'',
      I OP_SETUPDEFER, S ''h'', S ''r'',
      I OP_UNWIND,
    S ''.h'',
      I OP_DEFERCONTINUE,
    S ''.r'',
      I OP_LOAD, I 0,
      I OP_EXIT]"

section \<open>States of the prototype's program\<close>

text \<open>
  The frames and blocks of a run of the prototype's program: \<^verbatim>\<open>main\<close> sets up a catch
  and a defer region and calls \<^verbatim>\<open>prevent_14\<close>, which sets up a defer region and calls
  \<^verbatim>\<open>add\<close>, which sets up a defer and a catch region.
\<close>

definition main_frame :: frame where
  "main_frame = Frame 0 AddrErr None"

definition catch_main :: block where
  "catch_main = Block ''catch'' 33 (Some 38) None main_frame"

definition defer_main :: block where
  "defer_main = Block ''defer'' 26 (Some 31) None main_frame"

definition p14_frame :: frame where
  "p14_frame = Frame 1 (Addr 23) (Some defer_main)"

definition defer_p14 :: block where
  "defer_p14 = Block ''defer'' 85 (Some 90) (Some defer_main) p14_frame"

definition add_frame :: frame where
  "add_frame = Frame 2 (Addr 73) (Some defer_p14)"

definition defer_add :: block where
  "defer_add = Block ''defer'' 60 (Some 65) (Some defer_p14) add_frame"

definition catch_add :: block where
  "catch_add = Block ''catch'' 51 (Some 58) (Some catch_main) add_frame"

definition fresh_locals :: "val list" where
  "fresh_locals = [I 9999, I 9999, I 9999, I 9999]"

text \<open>Input 3 and 4, at the set-up-catch and the set-up-defer of \<^verbatim>\<open>main\<close>.\<close>

definition st_setupcatch :: state where
  "st_setupcatch =
     \<lparr> data_stack = [], function_stack = [main_frame], block_stack = [],
       unwind_reason = None, instruction_ptr = Addr 11, exit_code = I 0,
       locals = [[I 3, I 4, I 42, I 0]], stdin = [], halted = False \<rparr>"

definition st_setupdefer :: state where
  "st_setupdefer =
     \<lparr> data_stack = [], function_stack = [main_frame], block_stack = [catch_main],
       unwind_reason = None, instruction_ptr = Addr 14, exit_code = I 0,
       locals = [[I 3, I 4, I 42, I 0]], stdin = [], halted = False \<rparr>"

text \<open>Input 3 and 4, at the throw of \<^verbatim>\<open>add\<close>.\<close>

definition st_throw :: state where
  "st_throw =
     \<lparr> data_stack = [I 7],
       function_stack = [add_frame, p14_frame, main_frame],
       block_stack = [catch_add, defer_add, defer_p14, defer_main, catch_main],
       unwind_reason = None, instruction_ptr = Addr 50, exit_code = I 0,
       locals = [[I 3, I 4, I 42, I 0], fresh_locals, fresh_locals],
       stdin = [], halted = False \<rparr>"

text \<open>Input 3 and 4, at the return of \<^verbatim>\<open>add\<close> from its catch handler.\<close>

definition st_ret :: state where
  "st_ret =
     \<lparr> data_stack = [I 7],
       function_stack = [add_frame, p14_frame, main_frame],
       block_stack = [defer_add, defer_p14, defer_main, catch_main],
       unwind_reason = None, instruction_ptr = Addr 57, exit_code = I 0,
       locals = [[I 3, I 4, I 42, I 0], fresh_locals, fresh_locals],
       stdin = [], halted = False \<rparr>"

text \<open>Input 3 and 4, at the continue that ends the defer body of \<^verbatim>\<open>add\<close>.\<close>

definition st_continue :: state where
  "st_continue =
     \<lparr> data_stack = [I 7],
       function_stack = [add_frame, p14_frame, main_frame],
       block_stack = [defer_add, defer_p14, defer_main, catch_main],
       unwind_reason = Some UNWIND_RETURN, instruction_ptr = Addr 64, exit_code = I 0,
       locals = [[I 3, I 4, I 42, I 0], fresh_locals, fresh_locals],
       stdin = [], halted = False \<rparr>"

text \<open>Input 3 and 4, at the two scope exits of \<^verbatim>\<open>main\<close> and the continue between them.\<close>

definition st_exit_defer :: state where
  "st_exit_defer =
     \<lparr> data_stack = [],
       function_stack = [main_frame],
       block_stack = [defer_main, catch_main],
       unwind_reason = None, instruction_ptr = Addr 25, exit_code = I 0,
       locals = [[I 3, I 4, I 7, I 0], [I 7, I 9999, I 9999, I 9999], fresh_locals],
       stdin = [], halted = False \<rparr>"

definition st_exit_continue :: state where
  "st_exit_continue =
     \<lparr> data_stack = [],
       function_stack = [main_frame],
       block_stack = [defer_main, catch_main],
       unwind_reason = None, instruction_ptr = Addr 30, exit_code = I 0,
       locals = [[I 3, I 4, I 7, I 0], [I 7, I 9999, I 9999, I 9999], fresh_locals],
       stdin = [], halted = False \<rparr>"

definition st_exit_catch :: state where
  "st_exit_catch =
     \<lparr> data_stack = [],
       function_stack = [main_frame],
       block_stack = [catch_main],
       unwind_reason = None, instruction_ptr = Addr 32, exit_code = I 0,
       locals = [[I 3, I 4, I 7, I 0], [I 7, I 9999, I 9999, I 9999], fresh_locals],
       stdin = [], halted = False \<rparr>"

text \<open>Input 7 and 7, at the throw of \<^verbatim>\<open>prevent_14\<close>.\<close>

definition st_throw_14 :: state where
  "st_throw_14 =
     \<lparr> data_stack = [],
       function_stack = [p14_frame, main_frame],
       block_stack = [defer_p14, defer_main, catch_main],
       unwind_reason = None, instruction_ptr = Addr 93, exit_code = I 0,
       locals = [[I 7, I 7, I 42, I 0], [I 14, I 9999, I 9999, I 9999], fresh_locals],
       stdin = [], halted = False \<rparr>"

text \<open>Input 7 and 7, at the continue that ends the defer body of \<^verbatim>\<open>prevent_14\<close>.\<close>

definition st_continue_14 :: state where
  "st_continue_14 =
     \<lparr> data_stack = [],
       function_stack = [p14_frame, main_frame],
       block_stack = [defer_p14, defer_main, catch_main],
       unwind_reason = Some UNWIND_EXCEPTION, instruction_ptr = Addr 89, exit_code = I 0,
       locals = [[I 7, I 7, I 42, I 0], [I 14, I 9999, I 9999, I 9999], fresh_locals],
       stdin = [], halted = False \<rparr>"

section \<open>States of the further programs\<close>

text \<open>\<^verbatim>\<open>prog_ret_in_catch\<close> at the return of \<^verbatim>\<open>f\<close>, inside its catch region.\<close>

definition st_ret_in_catch :: state where
  "st_ret_in_catch =
     \<lparr> data_stack = [],
       function_stack = [Frame 1 (Addr 3) None, main_frame],
       block_stack = [Block ''catch'' 11 (Some 12) None (Frame 1 (Addr 3) None)],
       unwind_reason = None, instruction_ptr = Addr 10, exit_code = I 0,
       locals = [[I 0, I 0, I 0, I 0], fresh_locals],
       stdin = [], halted = False \<rparr>"

text \<open>
  \<^verbatim>\<open>prog_callee_exit\<close> at the return of \<^verbatim>\<open>f\<close>, after \<^verbatim>\<open>f\<close> has left the inner catch
  region of \<^verbatim>\<open>main\<close>: the block on top is the outer catch of \<^verbatim>\<open>main\<close>, the marker of the
  frame of \<^verbatim>\<open>f\<close> is the inner one.
\<close>

definition outer_catch :: block where
  "outer_catch = Block ''catch'' 16 (Some 14) None main_frame"

definition inner_catch :: block where
  "inner_catch = Block ''catch'' 16 (Some 14) (Some outer_catch) main_frame"

definition st_callee_ret :: state where
  "st_callee_ret =
     \<lparr> data_stack = [],
       function_stack = [Frame 1 (Addr 9) (Some inner_catch), main_frame],
       block_stack = [outer_catch],
       unwind_reason = None, instruction_ptr = Addr 15, exit_code = I 0,
       locals = [[I 0, I 0, I 0, I 0], fresh_locals],
       stdin = [], halted = False \<rparr>"

text \<open>\<^verbatim>\<open>prog_single_defer\<close> at the scope exit of its only block.\<close>

definition st_single_defer :: state where
  "st_single_defer =
     \<lparr> data_stack = [],
       function_stack = [main_frame],
       block_stack = [Block ''defer'' 5 (Some 7) None main_frame],
       unwind_reason = None, instruction_ptr = Addr 4, exit_code = I 0,
       locals = [[I 0, I 0, I 0, I 0]],
       stdin = [], halted = False \<rparr>"

text \<open>A function that throws into a catch region of its caller.\<close>

definition prog_callee_throw :: "val list" where
  "prog_callee_throw =
   [S ''.main'',
      I OP_SETUPCATCH, S ''h'', S ''r'',
      I OP_CALL, S ''f'',
    S ''.r'',
      I OP_LOAD, I 0,
      I OP_EXIT,
    S ''.h'',
      I OP_LOAD, I 1,
      I OP_EXIT,
    S ''.f'',
      I OP_LOAD, I 5,
      I OP_THROW]"

definition caller_catch :: block where
  "caller_catch = Block ''catch'' 10 (Some 6) None main_frame"

definition callee_frame :: frame where
  "callee_frame = Frame 1 (Addr 6) (Some caller_catch)"

text \<open>\<^verbatim>\<open>prog_callee_throw\<close> at the throw of \<^verbatim>\<open>f\<close>.\<close>

definition st_callee_throw :: state where
  "st_callee_throw =
     \<lparr> data_stack = [I 5],
       function_stack = [callee_frame, main_frame],
       block_stack = [caller_catch],
       unwind_reason = None, instruction_ptr = Addr 17, exit_code = I 0,
       locals = [[I 0, I 0, I 0, I 0], fresh_locals],
       stdin = [], halted = False \<rparr>"











section \<open>Basic facts\<close>

lemmas op_defs = OP_LOAD_def OP_ADD_def OP_PRINT_def OP_JMP_def OP_JMPIF_def OP_CMP_def
  OP_SETUPCATCH_def OP_SETUPDEFER_def OP_UNWIND_def OP_DEFERCONTINUE_def OP_THROW_def
  OP_CALL_def OP_RET_def OP_WRITELOCAL_def OP_LOADLOCAL_def OP_GETNUMBER_def OP_EXIT_def
  OP_ABORT_def OP_DUP_def

lemmas frame_defs = main_frame_def catch_main_def defer_main_def p14_frame_def defer_p14_def
  add_frame_def defer_add_def catch_add_def fresh_locals_def

subsection \<open>Python equality\<close>

lemma py_eq_depth:
  "frame_eq L f g \<Longrightarrow> frame_depth f = frame_depth g"
  "block_eq L b c \<Longrightarrow> block_depth b = block_depth c"
  "block_opt_eq L m n \<Longrightarrow> block_opt_depth m = block_opt_depth n"
  by (induction L f g and L b c and L m n rule: frame_eq_block_eq_block_opt_eq.induct) auto

lemma py_eq_refl:
  "frame_eq L f f" "block_eq L b b"
proof (induction f and b)
  case (Frame i r m)
  then show ?case by (cases m) auto
next
  case (Block k h c p f)
  then show ?case by (cases p) auto
qed

lemma block_opt_eq_refl: "block_opt_eq L m m"
  by (cases m) (auto simp: py_eq_refl)


text \<open>A block never equals the marker of a frame that equals its owner.\<close>

lemma owned_block_not_marker:
  assumes "frame_eq L (owner b) f"
  shows "\<not> block_opt_eq L (marker f) (Some b)"
proof
  assume "block_opt_eq L (marker f) (Some b)"
  then have "block_opt_depth (marker f) = block_opt_depth (Some b)"
    by (rule py_eq_depth)
  moreover have "frame_depth (owner b) = frame_depth f"
    using assms by (rule py_eq_depth)
  ultimately show False
    by (cases b; cases f) auto
qed

subsection \<open>Block stack\<close>

lemma last_block_None: "last_block k bs = None \<longleftrightarrow> (\<forall>b\<in>set bs. kind b \<noteq> k)"
  by (auto simp: last_block_def find_None_iff)

lemma last_block_append:
  "\<forall>b\<in>set upper. kind b \<noteq> k \<Longrightarrow> kind d = k \<Longrightarrow> last_block k (upper @ d # lower) = Some d"
  by (induction upper) (auto simp: last_block_def)

lemma last_block_split:
  "last_block k bs = Some d \<Longrightarrow>
     \<exists>upper lower. bs = upper @ d # lower \<and> (\<forall>b\<in>set upper. kind b \<noteq> k) \<and> kind d = k"
proof (induction bs)
  case Nil
  then show ?case by (simp add: last_block_def)
next
  case (Cons b bs)
  show ?case
  proof (cases "kind b = k")
    case True
    with Cons.prems have "b = d" by (simp add: last_block_def)
    with True have "b # bs = [] @ d # bs \<and> (\<forall>b\<in>set []. kind b \<noteq> k) \<and> kind d = k" by simp
    then show ?thesis by blast
  next
    case False
    with Cons.prems have "last_block k bs = Some d" by (simp add: last_block_def)
    from Cons.IH [OF this] obtain upper lower
      where "bs = upper @ d # lower" "\<forall>b\<in>set upper. kind b \<noteq> k" "kind d = k" by blast
    with False have "b # bs = (b # upper) @ d # lower \<and>
        (\<forall>x\<in>set (b # upper). kind x \<noteq> k) \<and> kind d = k"
      by simp
    then show ?thesis by blast
  qed
qed


lemma pop_frames_Some:
  "pop_frames L ow fs = Some rest \<Longrightarrow>
     \<exists>popped. fs = popped @ rest \<and> (\<forall>f\<in>set popped. \<not> frame_eq L ow f) \<and>
       rest \<noteq> [] \<and> frame_eq L ow (hd rest)"
proof (induction fs)
  case Nil
  then show ?case by simp
next
  case (Cons f fs)
  show ?case
  proof (cases "frame_eq L ow f")
    case True
    with Cons.prems have "rest = f # fs" by simp
    with True have "f # fs = [] @ rest \<and> (\<forall>f\<in>set []. \<not> frame_eq L ow f) \<and>
       rest \<noteq> [] \<and> frame_eq L ow (hd rest)" by simp
    then show ?thesis by blast
  next
    case False
    with Cons.prems have "pop_frames L ow fs = Some rest" by simp
    from Cons.IH [OF this] obtain popped where
      "fs = popped @ rest" "\<forall>f\<in>set popped. \<not> frame_eq L ow f" "rest \<noteq> []" "frame_eq L ow (hd rest)"
      by blast
    with False have "f # fs = (f # popped) @ rest \<and> (\<forall>g\<in>set (f # popped). \<not> frame_eq L ow g) \<and>
       rest \<noteq> [] \<and> frame_eq L ow (hd rest)" by simp
    then show ?thesis by blast
  qed
qed

lemma pop_frames_None: "pop_frames L ow fs = None \<longleftrightarrow> (\<forall>f\<in>set fs. \<not> frame_eq L ow f)"
  by (induction fs) auto

subsection \<open>The loop dispatches on the opcode\<close>

lemma step_throw:
  "instruction_ptr s = Addr i \<Longrightarrow> at cm i = Some (I OP_THROW) \<Longrightarrow> step cm s = op_throw s"
  by (simp add: step_def exec_op_def op_defs)

lemma step_ret:
  "instruction_ptr s = Addr i \<Longrightarrow> at cm i = Some (I OP_RET) \<Longrightarrow> step cm s = op_ret s"
  by (simp add: step_def exec_op_def op_defs)

lemma step_unwind:
  "instruction_ptr s = Addr i \<Longrightarrow> at cm i = Some (I OP_UNWIND) \<Longrightarrow> step cm s = op_unwind s"
  by (simp add: step_def exec_op_def op_defs)

lemma step_defercontinue:
  "instruction_ptr s = Addr i \<Longrightarrow> at cm i = Some (I OP_DEFERCONTINUE)
     \<Longrightarrow> step cm s = op_defercontinue s"
  by (simp add: step_def exec_op_def op_defs)

lemma step_call:
  "instruction_ptr s = Addr i \<Longrightarrow> at cm i = Some (I OP_CALL) \<Longrightarrow> step cm s = op_call cm i s"
  by (simp add: step_def exec_op_def op_defs)

lemma step_setupcatch:
  "instruction_ptr s = Addr i \<Longrightarrow> at cm i = Some (I OP_SETUPCATCH)
     \<Longrightarrow> step cm s = op_setupcatch cm i s"
  by (simp add: step_def exec_op_def op_defs)

lemma step_setupdefer:
  "instruction_ptr s = Addr i \<Longrightarrow> at cm i = Some (I OP_SETUPDEFER)
     \<Longrightarrow> step cm s = op_setupdefer cm i s"
  by (simp add: step_def exec_op_def op_defs)

lemma step_label:
  "instruction_ptr s = Addr i \<Longrightarrow> at cm i = Some (S l)
     \<Longrightarrow> step cm s = Inr (s\<lparr>instruction_ptr := Addr (i + 1)\<rparr>)"
  by (simp add: step_def)

subsection \<open>Runs and reachable states\<close>

lemma run_reachable:
  "reachable cm input s \<Longrightarrow> run cm n s = Inr t \<Longrightarrow> reachable cm input t"
proof (induction n arbitrary: s)
  case 0
  then show ?case by simp
next
  case (Suc n)
  show ?case
  proof (cases "halted s")
    case True
    with Suc.prems show ?thesis by simp
  next
    case False
    with Suc.prems obtain u where u: "step cm s = Inr u" "run cm n u = Inr t"
      by (auto split: sum.splits)
    from Suc.prems(1) False u(1) have "reachable cm input u" by (rule reachable_step)
    then show ?thesis using u(2) by (rule Suc.IH)
  qed
qed

lemma reached_states:
  "run code_memory 7 (init_state [Some 3, Some 4]) = Inr st_setupcatch"
  "run code_memory 9 (init_state [Some 3, Some 4]) = Inr st_setupdefer"
  "run code_memory 21 (init_state [Some 3, Some 4]) = Inr st_throw"
  "run code_memory 27 (init_state [Some 3, Some 4]) = Inr st_ret"
  "run code_memory 31 (init_state [Some 3, Some 4]) = Inr st_continue"
  "run code_memory 44 (init_state [Some 3, Some 4]) = Inr st_exit_defer"
  "run code_memory 48 (init_state [Some 3, Some 4]) = Inr st_exit_continue"
  "run code_memory 50 (init_state [Some 3, Some 4]) = Inr st_exit_catch"
  "run code_memory 38 (init_state [Some 7, Some 7]) = Inr st_throw_14"
  "run code_memory 42 (init_state [Some 7, Some 7]) = Inr st_continue_14"
  by code_simp+

section \<open>Frame effect on the data stack\<close>

lemma unwind_block_data: "unwind_block s = Inr t \<Longrightarrow> data_stack t = data_stack s"
  by (auto simp: unwind_block_def split: list.splits option.splits reason.splits if_splits)

lemma op_throw_data: "op_throw s = Inr t \<Longrightarrow> data_stack t = data_stack s"
  by (auto simp: op_throw_def split: option.splits dest!: unwind_block_data)

lemma op_ret_data: "op_ret s = Inr t \<Longrightarrow> data_stack t = data_stack s"
  by (auto simp: op_ret_def split: list.splits if_splits dest!: unwind_block_data)

lemma op_unwind_data: "op_unwind s = Inr t \<Longrightarrow> data_stack t = data_stack s"
  by (auto simp: op_unwind_def split: list.splits if_splits)

lemma op_defercontinue_data: "op_defercontinue s = Inr t \<Longrightarrow> data_stack t = data_stack s"
  by (auto simp: op_defercontinue_def split: list.splits if_splits dest!: unwind_block_data)

lemma op_call_data: "op_call cm i s = Inr t \<Longrightarrow> data_stack t = data_stack s"
  by (auto simp: op_call_def Let_def split: option.splits)

lemma unwinding_op_data:
  assumes "instruction_ptr s = Addr i" and "at cm i = Some (I opcode)"
    and "opcode \<in> {OP_THROW, OP_RET, OP_UNWIND, OP_DEFERCONTINUE, OP_CALL}"
    and "step cm s = Inr t"
  shows "data_stack t = data_stack s"
proof -
  from assms(3) consider "opcode = OP_THROW" | "opcode = OP_RET" | "opcode = OP_UNWIND"
    | "opcode = OP_DEFERCONTINUE" | "opcode = OP_CALL" by blast
  then show ?thesis
  proof cases
    case 1
    with assms show ?thesis using step_throw [of s i cm] op_throw_data [of s t] by simp
  next
    case 2
    with assms show ?thesis using step_ret [of s i cm] op_ret_data [of s t] by simp
  next
    case 3
    with assms show ?thesis using step_unwind [of s i cm] op_unwind_data [of s t] by simp
  next
    case 4
    with assms show ?thesis
      using step_defercontinue [of s i cm] op_defercontinue_data [of s t] by simp
  next
    case 5
    with assms show ?thesis using step_call [of s i cm] op_call_data [of cm i s t] by simp
  qed
qed

lemma throw_to_catch:
  assumes "instruction_ptr s = Addr i" and "at cm i = Some (I OP_THROW)"
    and "block_stack s = top_block # bs" and "kind top_block = ''catch''"
    and "step cm s = Inr t"
  shows "instruction_ptr t = Addr (handler top_block) \<and> unwind_reason t = None \<and>
         data_stack t = data_stack s"
proof -
  from assms have "op_throw s = Inr t" using step_throw [of s i cm] by simp
  with assms(3,4) show ?thesis
    by (auto simp: op_throw_def unwind_block_def split: option.splits list.splits)
qed

text \<open>
  Claim C10. The throw, return, scope-exit, defer-continue and call operations and
  every step of the unwinding algorithm leave the data stack as it is; in particular,
  when a throw selects a catch handler, the data stack at the handler's first
  instruction is the data stack at the throw, so the thrown value is still on top.
\<close>

theorem unwinding_keeps_data_stack:
  "(unwind_block s = Inr t \<longrightarrow> data_stack t = data_stack s) \<and>
   (instruction_ptr s = Addr i \<and> at cm i = Some (I opcode) \<and>
    opcode \<in> {OP_THROW, OP_RET, OP_UNWIND, OP_DEFERCONTINUE, OP_CALL} \<and> step cm s = Inr t'
      \<longrightarrow> data_stack t' = data_stack s) \<and>
   (instruction_ptr s = Addr i \<and> at cm i = Some (I OP_THROW) \<and>
    block_stack s = top_block # bs \<and> kind top_block = ''catch'' \<and> step cm s = Inr t'
      \<longrightarrow> instruction_ptr t' = Addr (handler top_block) \<and> unwind_reason t' = None \<and>
          data_stack t' = data_stack s)"
  using unwind_block_data [of s t] unwinding_op_data [of s i cm opcode t']
    throw_to_catch [of s i cm top_block bs t']
  by blast

text \<open>
  The throw of the function \<^verbatim>\<open>add\<close> in the prototype's program, on the input 3 and 4:
  the sum 7 is on top of the data stack at the throw and at the catch handler.
\<close>

theorem unwinding_keeps_data_stack_witness:
  "step code_memory st_throw
     = Inr (st_throw\<lparr>block_stack := [defer_add, defer_p14, defer_main, catch_main],
                     instruction_ptr := Addr 51\<rparr>) \<and>
   data_stack st_throw = [I 7] \<and>
   data_stack (st_throw\<lparr>block_stack := [defer_add, defer_p14, defer_main, catch_main],
                        instruction_ptr := Addr 51\<rparr>) = data_stack st_throw"
proof -
  let ?t = "st_throw\<lparr>block_stack := [defer_add, defer_p14, defer_main, catch_main],
                     instruction_ptr := Addr 51\<rparr>"
  have st: "step code_memory st_throw = Inr ?t" by code_simp
  have ip: "instruction_ptr st_throw = Addr 50" by (simp add: st_throw_def)
  have op: "at code_memory 50 = Some (I OP_THROW)" by code_simp
  have d: "data_stack st_throw = [I 7]" by (simp add: st_throw_def)
  from unwinding_keeps_data_stack [of st_throw ?t 50 code_memory OP_THROW ?t] st ip op
  have "data_stack ?t = data_stack st_throw"
    by blast
  with st d show ?thesis by simp
qed

section \<open>Set-up of a protected region\<close>

lemma setupcatch_steps:
  assumes "instruction_ptr s = Addr i" and "at cm i = Some (I OP_SETUPCATCH)"
    and "at cm (i + 1) = Some (S h)" and "at cm (i + 2) = Some (S r)"
    and "resolve_label cm (S h) = Some ho" and "resolve_label cm (S r) = Some ro"
    and "function_stack s = f # fs"
  shows "step cm s =
           Inr (s\<lparr>block_stack :=
                    Block ''catch'' ho (Some ro) (last_block ''catch'' (block_stack s)) f
                      # block_stack s,
                  instruction_ptr := Addr (i + 2)\<rparr>)"
    and "step cm (s\<lparr>block_stack :=
                    Block ''catch'' ho (Some ro) (last_block ''catch'' (block_stack s)) f
                      # block_stack s,
                  instruction_ptr := Addr (i + 2)\<rparr>) =
           Inr (s\<lparr>block_stack :=
                    Block ''catch'' ho (Some ro) (last_block ''catch'' (block_stack s)) f
                      # block_stack s,
                  instruction_ptr := Addr (i + 3)\<rparr>)"
proof -
  show "step cm s =
           Inr (s\<lparr>block_stack :=
                    Block ''catch'' ho (Some ro) (last_block ''catch'' (block_stack s)) f
                      # block_stack s,
                  instruction_ptr := Addr (i + 2)\<rparr>)"
    using assms by (simp add: step_setupcatch op_setupcatch_def push_block_def)
  show "step cm (s\<lparr>block_stack :=
                    Block ''catch'' ho (Some ro) (last_block ''catch'' (block_stack s)) f
                      # block_stack s,
                  instruction_ptr := Addr (i + 2)\<rparr>) =
           Inr (s\<lparr>block_stack :=
                    Block ''catch'' ho (Some ro) (last_block ''catch'' (block_stack s)) f
                      # block_stack s,
                  instruction_ptr := Addr (i + 3)\<rparr>)"
    using assms(4) by (simp add: step_def)
qed

lemma setupdefer_step:
  assumes "instruction_ptr s = Addr i" and "at cm i = Some (I OP_SETUPDEFER)"
    and "at cm (i + 1) = Some (S h)" and "at cm (i + 2) = Some (S r)"
    and "resolve_label cm (S h) = Some ho" and "resolve_label cm (S r) = Some ro"
    and "function_stack s = f # fs"
  shows "step cm s =
           Inr (s\<lparr>block_stack :=
                    Block ''defer'' ho (Some ro) (last_block ''defer'' (block_stack s)) f
                      # block_stack s,
                  instruction_ptr := Addr (i + 3)\<rparr>)"
  using assms by (simp add: step_setupdefer op_setupdefer_def push_block_def)

text \<open>
  Claim C9. Set-up-catch carries two label operands and advances the instruction
  pointer by 2 only; the next iteration of the loop finds the resume label, a
  string, and skips it as a label, so that two iterations advance by 3 and change
  nothing else. Set-up-defer advances by 3 in one iteration.
\<close>

theorem setupcatch_advance:
  assumes "instruction_ptr s = Addr i"
    and "at cm (i + 1) = Some (S h)" and "at cm (i + 2) = Some (S r)"
    and "resolve_label cm (S h) = Some ho" and "resolve_label cm (S r) = Some ro"
    and "function_stack s = f # fs"
  shows "(at cm i = Some (I OP_SETUPCATCH) \<longrightarrow>
            step cm s =
              Inr (s\<lparr>block_stack :=
                       Block ''catch'' ho (Some ro) (last_block ''catch'' (block_stack s)) f
                         # block_stack s,
                     instruction_ptr := Addr (i + 2)\<rparr>) \<and>
            step cm (s\<lparr>block_stack :=
                       Block ''catch'' ho (Some ro) (last_block ''catch'' (block_stack s)) f
                         # block_stack s,
                     instruction_ptr := Addr (i + 2)\<rparr>) =
              Inr (s\<lparr>block_stack :=
                       Block ''catch'' ho (Some ro) (last_block ''catch'' (block_stack s)) f
                         # block_stack s,
                     instruction_ptr := Addr (i + 3)\<rparr>)) \<and>
         (at cm i = Some (I OP_SETUPDEFER) \<longrightarrow>
            step cm s =
              Inr (s\<lparr>block_stack :=
                       Block ''defer'' ho (Some ro) (last_block ''defer'' (block_stack s)) f
                         # block_stack s,
                     instruction_ptr := Addr (i + 3)\<rparr>))"
  using setupcatch_steps [OF assms(1) _ assms(2-6)] setupdefer_step [OF assms(1) _ assms(2-6)]
  by blast

text \<open>The set-up-catch and the set-up-defer of \<^verbatim>\<open>main\<close> in the prototype's program.\<close>

theorem setupcatch_advance_witness:
  "step code_memory st_setupcatch =
     Inr (st_setupcatch\<lparr>block_stack := [catch_main], instruction_ptr := Addr 13\<rparr>) \<and>
   step code_memory (st_setupcatch\<lparr>block_stack := [catch_main], instruction_ptr := Addr 13\<rparr>) =
     Inr (st_setupcatch\<lparr>block_stack := [catch_main], instruction_ptr := Addr 14\<rparr>) \<and>
   step code_memory st_setupdefer =
     Inr (st_setupdefer\<lparr>block_stack := [defer_main, catch_main], instruction_ptr := Addr 17\<rparr>)"
proof -
  have c: "instruction_ptr st_setupcatch = Addr 11" "function_stack st_setupcatch = main_frame # []"
    "block_stack st_setupcatch = []"
    by (simp_all add: st_setupcatch_def)
  have d: "instruction_ptr st_setupdefer = Addr 14" "function_stack st_setupdefer = main_frame # []"
    "block_stack st_setupdefer = [catch_main]"
    by (simp_all add: st_setupdefer_def)
  have m: "at code_memory 11 = Some (I OP_SETUPCATCH)"
    "at code_memory (11 + 1) = Some (S ''main#L3'')" "at code_memory (11 + 2) = Some (S ''main#L4'')"
    "at code_memory 14 = Some (I OP_SETUPDEFER)"
    "at code_memory (14 + 1) = Some (S ''main#L1'')" "at code_memory (14 + 2) = Some (S ''main#L2'')"
    by code_simp+
  have r: "resolve_label code_memory (S ''main#L3'') = Some 33"
    "resolve_label code_memory (S ''main#L4'') = Some 38"
    "resolve_label code_memory (S ''main#L1'') = Some 26"
    "resolve_label code_memory (S ''main#L2'') = Some 31"
    by code_simp+
  have k: "kind catch_main \<noteq> ''defer''" by (simp add: catch_main_def)
  from setupcatch_advance [OF c(1) m(2,3) r(1,2) c(2)] m(1) c(3)
  have 1: "step code_memory st_setupcatch =
     Inr (st_setupcatch\<lparr>block_stack := [catch_main], instruction_ptr := Addr 13\<rparr>) \<and>
   step code_memory (st_setupcatch\<lparr>block_stack := [catch_main], instruction_ptr := Addr 13\<rparr>) =
     Inr (st_setupcatch\<lparr>block_stack := [catch_main], instruction_ptr := Addr 14\<rparr>)"
    by (simp add: last_block_def catch_main_def)
  from setupcatch_advance [OF d(1) m(5,6) r(3,4) d(2)] m(4) d(3) k
  have 2: "step code_memory st_setupdefer =
     Inr (st_setupdefer\<lparr>block_stack := [defer_main, catch_main], instruction_ptr := Addr 17\<rparr>)"
    by (simp add: last_block_def defer_main_def)
  from 1 2 show ?thesis by blast
qed

section \<open>Return inside a catch region, no defer anywhere\<close>

lemma unwind_block_no_defer:
  assumes "unwind_reason s = Some UNWIND_RETURN" and "function_stack s = f # fs"
    and "block_stack s \<noteq> []" and "last_block ''defer'' (block_stack s) = None"
  shows "unwind_block s =
           Inr (s\<lparr>block_stack := dropWhile (\<lambda>b. frame_eq (locals s) (owner b) f) (block_stack s),
                  instruction_ptr := ret f, function_stack := fs\<rparr>)"
  using assms by (cases "block_stack s") (simp_all add: unwind_block_def)

text \<open>
  Claim C2, on the code. In \<^verbatim>\<open>prog_ret_in_catch\<close> the function \<^verbatim>\<open>f\<close> returns with its
  catch block on the block stack and no defer block anywhere. The return discards
  the block, pops the frame and jumps to the return address 3, and it leaves the
  unwind reason set to \<^verbatim>\<open>UNWIND_RETURN\<close>; the reason is still set when the program exits.
\<close>

theorem return_no_defer_keeps_reason:
  "run prog_ret_in_catch 5 (init_state []) = Inr st_ret_in_catch \<and>
   at prog_ret_in_catch 10 = Some (I OP_RET) \<and>
   last_block ''defer'' (block_stack st_ret_in_catch) = None \<and>
   step prog_ret_in_catch st_ret_in_catch =
     Inr (st_ret_in_catch\<lparr>function_stack := [main_frame], block_stack := [],
            instruction_ptr := Addr 3, unwind_reason := Some UNWIND_RETURN\<rparr>) \<and>
   run prog_ret_in_catch 3 (st_ret_in_catch) =
     Inr (st_ret_in_catch\<lparr>function_stack := [main_frame], block_stack := [],
            instruction_ptr := Addr 5, unwind_reason := Some UNWIND_RETURN,
            halted := True\<rparr>)"
  by code_simp

section \<open>The return operation\<close>

text \<open>
  Claim C6, as the code has it. The return operation begins a return unwind exactly
  when the block stack is not empty and its top block differs from the block marker
  of the returning frame; otherwise it pops the frame and jumps to its return
  address. A top block owned by the returning frame always differs from the marker.
\<close>

theorem ret_unwinds_iff_marker_differs:
  assumes "instruction_ptr s = Addr i" and "at cm i = Some (I OP_RET)"
    and "function_stack s = f # fs"
  shows "(block_stack s \<noteq> [] \<and>
            \<not> block_opt_eq (locals s) (marker f) (Some (hd (block_stack s))) \<longrightarrow>
            step cm s = unwind_block (s\<lparr>unwind_reason := Some UNWIND_RETURN\<rparr>)) \<and>
         (block_stack s = [] \<or>
            block_opt_eq (locals s) (marker f) (Some (hd (block_stack s))) \<longrightarrow>
            step cm s = Inr (s\<lparr>function_stack := fs, instruction_ptr := ret f\<rparr>)) \<and>
         (block_stack s \<noteq> [] \<and> frame_eq (locals s) (owner (hd (block_stack s))) f \<longrightarrow>
            step cm s = unwind_block (s\<lparr>unwind_reason := Some UNWIND_RETURN\<rparr>))"
proof -
  have st: "step cm s = op_ret s" using assms(1,2) by (rule step_ret)
  have 1: "block_stack s \<noteq> [] \<and>
            \<not> block_opt_eq (locals s) (marker f) (Some (hd (block_stack s))) \<longrightarrow>
            step cm s = unwind_block (s\<lparr>unwind_reason := Some UNWIND_RETURN\<rparr>)"
    using assms(3) by (cases "block_stack s") (simp_all add: st op_ret_def)
  have 2: "block_stack s = [] \<or>
            block_opt_eq (locals s) (marker f) (Some (hd (block_stack s))) \<longrightarrow>
            step cm s = Inr (s\<lparr>function_stack := fs, instruction_ptr := ret f\<rparr>)"
    using assms(3) by (cases "block_stack s") (auto simp: st op_ret_def)
  have 3: "block_stack s \<noteq> [] \<and> frame_eq (locals s) (owner (hd (block_stack s))) f \<longrightarrow>
            step cm s = unwind_block (s\<lparr>unwind_reason := Some UNWIND_RETURN\<rparr>)"
    using 1 owned_block_not_marker [of "locals s" "hd (block_stack s)" f] by blast
  from 1 2 3 show ?thesis by blast
qed

text \<open>
  The return of \<^verbatim>\<open>add\<close> in the prototype's program: the top block is the defer block of
  \<^verbatim>\<open>add\<close>, the marker is the defer block of \<^verbatim>\<open>prevent_14\<close>, and the return unwind enters
  the defer handler at 60.
\<close>

theorem ret_unwinds_iff_marker_differs_witness:
  "block_stack st_ret \<noteq> [] \<and>
   \<not> block_opt_eq (locals st_ret) (marker add_frame) (Some (hd (block_stack st_ret))) \<and>
   frame_eq (locals st_ret) (owner (hd (block_stack st_ret))) add_frame \<and>
   step code_memory st_ret = unwind_block (st_ret\<lparr>unwind_reason := Some UNWIND_RETURN\<rparr>) \<and>
   unwind_block (st_ret\<lparr>unwind_reason := Some UNWIND_RETURN\<rparr>) =
     Inr (st_ret\<lparr>unwind_reason := Some UNWIND_RETURN, instruction_ptr := Addr 60\<rparr>)"
proof -
  have a: "instruction_ptr st_ret = Addr 57"
    "function_stack st_ret = add_frame # [p14_frame, main_frame]"
    by (simp_all add: st_ret_def)
  have m: "at code_memory 57 = Some (I OP_RET)" by code_simp
  have b: "block_stack st_ret \<noteq> []" by (simp add: st_ret_def)
  have c: "\<not> block_opt_eq (locals st_ret) (marker add_frame) (Some (hd (block_stack st_ret)))"
    by (simp add: st_ret_def frame_defs)
  have d: "frame_eq (locals st_ret) (owner (hd (block_stack st_ret))) add_frame"
    by (simp add: st_ret_def frame_defs)
  have e: "unwind_block (st_ret\<lparr>unwind_reason := Some UNWIND_RETURN\<rparr>) =
     Inr (st_ret\<lparr>unwind_reason := Some UNWIND_RETURN, instruction_ptr := Addr 60\<rparr>)"
    by code_simp
  from ret_unwinds_iff_marker_differs [OF a(1) m a(2)] b c
  have "step code_memory st_ret = unwind_block (st_ret\<lparr>unwind_reason := Some UNWIND_RETURN\<rparr>)"
    by blast
  with b c d e show ?thesis by blast
qed

text \<open>
  Claim C6 as stated fails. In \<^verbatim>\<open>prog_callee_exit\<close> the function \<^verbatim>\<open>f\<close> leaves the inner
  catch region of \<^verbatim>\<open>main\<close> and returns: the block on top is owned by the frame of
  \<^verbatim>\<open>main\<close>, not by the returning frame, and the return operation begins a return unwind
  all the same; its result is not the result of popping the frame directly.
\<close>

theorem ret_owner_counterexample:
  "run prog_callee_exit 9 (init_state []) = Inr st_callee_ret \<and>
   instruction_ptr st_callee_ret = Addr 15 \<and>
   at prog_callee_exit 15 = Some (I OP_RET) \<and>
   block_stack st_callee_ret \<noteq> [] \<and>
   \<not> frame_eq (locals st_callee_ret) (owner (hd (block_stack st_callee_ret)))
       (hd (function_stack st_callee_ret)) \<and>
   step prog_callee_exit st_callee_ret =
     unwind_block (st_callee_ret\<lparr>unwind_reason := Some UNWIND_RETURN\<rparr>) \<and>
   step prog_callee_exit st_callee_ret \<noteq>
     Inr (st_callee_ret\<lparr>function_stack := tl (function_stack st_callee_ret),
            instruction_ptr := ret (hd (function_stack st_callee_ret))\<rparr>)"
  by code_simp

section \<open>Explicit scope exit\<close>

lemma exit_catch:
  assumes "instruction_ptr s = Addr i" and "at cm i = Some (I OP_UNWIND)"
    and "block_stack s = top_block # bs" and "kind top_block = ''catch''"
    and "cont top_block = Some r"
  shows "step cm s = Inr (s\<lparr>instruction_ptr := Addr r, block_stack := bs\<rparr>)"
  using assms by (simp add: step_unwind op_unwind_def)

lemma exit_defer:
  assumes "instruction_ptr s = Addr i" and "at cm i = Some (I OP_UNWIND)"
    and "block_stack s = top_block # bs" and "kind top_block = ''defer''"
  shows "step cm s = Inr (s\<lparr>instruction_ptr := Addr (handler top_block)\<rparr>)"
  using assms by (simp add: step_unwind op_unwind_def)

lemma continue_no_reason:
  assumes "instruction_ptr t = Addr j" and "at cm j = Some (I OP_DEFERCONTINUE)"
    and "block_stack t = top_block # bs" and "bs \<noteq> []" and "unwind_reason t = None"
    and "cont top_block = Some r"
  shows "step cm t = Inr (t\<lparr>block_stack := bs, instruction_ptr := Addr r\<rparr>)"
proof -
  from assms(3,4) have "\<not> length (block_stack t) < 2" by (cases bs) simp_all
  with assms show ?thesis by (simp add: step_defercontinue op_defercontinue_def)
qed

text \<open>
  Claim C7, as the code has it. With no unwind in progress the unwind operation
  pops a catch block on top and jumps to its resume offset; for a defer block on top
  it jumps to the handler offset and keeps the block and the empty reason. A continue
  operation that then finds the same block stack and no reason pops the block and
  jumps to its resume offset, provided the block stack holds at least two blocks.
\<close>

theorem scope_exit:
  assumes "instruction_ptr s = Addr i" and "at cm i = Some (I OP_UNWIND)"
    and "unwind_reason s = None" and "block_stack s = top_block # bs"
    and "cont top_block = Some r"
  shows "(kind top_block = ''catch'' \<longrightarrow>
            step cm s = Inr (s\<lparr>instruction_ptr := Addr r, block_stack := bs\<rparr>)) \<and>
         (kind top_block = ''defer'' \<longrightarrow>
            step cm s = Inr (s\<lparr>instruction_ptr := Addr (handler top_block)\<rparr>) \<and>
            (\<forall>t j. instruction_ptr t = Addr j \<and> at cm j = Some (I OP_DEFERCONTINUE) \<and>
                   block_stack t = block_stack s \<and> unwind_reason t = None \<and> bs \<noteq> [] \<longrightarrow>
                   step cm t = Inr (t\<lparr>block_stack := bs, instruction_ptr := Addr r\<rparr>)))"
  using exit_catch [OF assms(1,2,4) _ assms(5)] exit_defer [OF assms(1,2,4)]
    continue_no_reason [where cm = cm and top_block = top_block and bs = bs and r = r] assms(4,5)
  by auto

text \<open>
  The two scope exits of \<^verbatim>\<open>main\<close> in the prototype's program: the defer block is entered
  at 26 and its continue resumes at 31; the catch block is popped and control goes
  to 38.
\<close>

theorem scope_exit_witness:
  "step code_memory st_exit_defer = Inr (st_exit_defer\<lparr>instruction_ptr := Addr 26\<rparr>) \<and>
   step code_memory st_exit_continue =
     Inr (st_exit_continue\<lparr>block_stack := [catch_main], instruction_ptr := Addr 31\<rparr>) \<and>
   step code_memory st_exit_catch =
     Inr (st_exit_catch\<lparr>instruction_ptr := Addr 38, block_stack := []\<rparr>)"
proof -
  have d: "instruction_ptr st_exit_defer = Addr 25" "unwind_reason st_exit_defer = None"
    "block_stack st_exit_defer = defer_main # [catch_main]"
    by (simp_all add: st_exit_defer_def)
  have e: "instruction_ptr st_exit_continue = Addr 30" "unwind_reason st_exit_continue = None"
    "block_stack st_exit_continue = block_stack st_exit_defer"
    by (simp_all add: st_exit_continue_def st_exit_defer_def)
  have c: "instruction_ptr st_exit_catch = Addr 32" "unwind_reason st_exit_catch = None"
    "block_stack st_exit_catch = catch_main # []"
    by (simp_all add: st_exit_catch_def)
  have m: "at code_memory 25 = Some (I OP_UNWIND)" "at code_memory 30 = Some (I OP_DEFERCONTINUE)"
    "at code_memory 32 = Some (I OP_UNWIND)"
    by code_simp+
  have k: "kind defer_main = ''defer''" "cont defer_main = Some 31" "handler defer_main = 26"
    "kind catch_main = ''catch''" "cont catch_main = Some 38"
    by (simp_all add: frame_defs)
  from scope_exit [OF d(1) m(1) d(2,3) k(2)] k(1,3) e m(2)
  have 1: "step code_memory st_exit_defer = Inr (st_exit_defer\<lparr>instruction_ptr := Addr 26\<rparr>)"
    and 2: "step code_memory st_exit_continue =
     Inr (st_exit_continue\<lparr>block_stack := [catch_main], instruction_ptr := Addr 31\<rparr>)"
    by auto
  from scope_exit [OF c(1) m(3) c(2,3) k(5)] k(4)
  have 3: "step code_memory st_exit_catch =
     Inr (st_exit_catch\<lparr>instruction_ptr := Addr 38, block_stack := []\<rparr>)"
    by simp
  from 1 2 3 show ?thesis by blast
qed

text \<open>
  Claim C7 as stated fails. In \<^verbatim>\<open>prog_single_defer\<close> the defer block is the only block.
  The unwind operation enters its handler at 5 and keeps the block, with no reason
  set; the continue operation that follows raises instead of jumping to the resume
  offset.
\<close>

theorem single_defer_counterexample:
  "run prog_single_defer 2 (init_state []) = Inr st_single_defer \<and>
   at prog_single_defer 4 = Some (I OP_UNWIND) \<and>
   unwind_reason st_single_defer = None \<and>
   kind (hd (block_stack st_single_defer)) = ''defer'' \<and>
   step prog_single_defer st_single_defer =
     Inr (st_single_defer\<lparr>instruction_ptr := Addr 5\<rparr>) \<and>
   step prog_single_defer (st_single_defer\<lparr>instruction_ptr := Addr 5\<rparr>) =
     Inr (st_single_defer\<lparr>instruction_ptr := Addr 6\<rparr>) \<and>
   at prog_single_defer 6 = Some (I OP_DEFERCONTINUE) \<and>
   step prog_single_defer (st_single_defer\<lparr>instruction_ptr := Addr 6\<rparr>) =
     Inl (Exception ''empty block stack'')"
  by code_simp

section \<open>The nesting discipline is an invariant\<close>

lemma well_nested_init: "well_nested (init_state input)"
  by (simp add: well_nested_def init_state_def)

lemma well_nested_same:
  assumes "well_nested s" and "function_stack t = function_stack s"
    and "block_stack t = block_stack s" and "length (locals t) = length (locals s)"
  shows "well_nested t"
  using assms by (simp add: well_nested_def)

text \<open>Popping frames and blocks keeps the discipline when no owner is popped.\<close>

lemma well_nested_popped:
  assumes "well_nested s" and "function_stack s = popped @ rest"
    and "block_stack s = pre @ bs'" and "\<forall>b\<in>set bs'. owner b \<in> set rest"
    and "function_stack t = rest" and "block_stack t = bs'"
    and "length (locals t) = length (locals s)"
  shows "well_nested t"
  using assms by (auto simp: well_nested_def sorted_wrt_append)

lemma well_nested_blocks_popped:
  assumes "well_nested s" and "block_stack s = pre @ bs'"
    and "function_stack t = function_stack s" and "block_stack t = bs'"
    and "length (locals t) = length (locals s)"
  shows "well_nested t"
proof -
  from assms(1,2) have "\<forall>b\<in>set bs'. owner b \<in> set (function_stack s)"
    by (auto simp: well_nested_def)
  with assms show ?thesis
    using well_nested_popped [of s "[]" "function_stack s" pre bs' t] by simp
qed

text \<open>Frames on the function stack are told apart by their number.\<close>

lemma well_nested_top_fid:
  assumes "well_nested s" and "function_stack s = f # fs" and "g \<in> set (f # fs)"
  shows "fid g \<le> fid f" and "fid g = fid f \<Longrightarrow> g = f"
  using assms by (auto simp: well_nested_def)

text \<open>If the top frame owns a block at all, it owns the top block.\<close>

lemma well_nested_top_owner:
  assumes wn: "well_nested s" and fs: "function_stack s = f # fs"
    and bs: "block_stack s = b0 # bs" and b: "b \<in> set (b0 # bs)" and ow: "owner b = f"
  shows "owner b0 = f"
proof -
  from wn bs b have "fid (owner b) \<le> fid (owner b0)"
    by (auto simp: well_nested_def)
  moreover from wn bs fs have in0: "owner b0 \<in> set (f # fs)"
    by (auto simp: well_nested_def)
  ultimately have "fid (owner b0) = fid f"
    using well_nested_top_fid(1) [OF wn fs in0] ow by simp
  then show ?thesis
    using well_nested_top_fid(2) [OF wn fs in0] by simp
qed

text \<open>
  After the blocks that equal-compare as owned by the top frame are dropped, no
  block owned by the top frame is left.
\<close>

lemma dropped_own_blocks:
  assumes wn: "well_nested s" and fs: "function_stack s = f # fs"
  shows "\<forall>b\<in>set (dropWhile (\<lambda>b. frame_eq (locals s) (owner b) f) (block_stack s)).
           owner b \<in> set fs"
proof
  let ?P = "\<lambda>b. frame_eq (locals s) (owner b) f"
  let ?bs' = "dropWhile ?P (block_stack s)"
  fix b assume b: "b \<in> set ?bs'"
  have split: "block_stack s = takeWhile ?P (block_stack s) @ ?bs'" by simp
  let ?t = "s\<lparr>block_stack := ?bs'\<rparr>"
  have wt: "well_nested ?t"
    using well_nested_blocks_popped [OF wn split, of ?t] by simp
  from b obtain b0 rest where bs': "?bs' = b0 # rest" by (cases ?bs') auto
  then have nP: "\<not> ?P b0" using hd_dropWhile [of ?P "block_stack s"] by auto
  have "owner b \<noteq> f"
  proof
    assume "owner b = f"
    then have "owner b0 = f"
      using well_nested_top_owner [OF wt, of f fs b0 rest b] fs bs' b by simp
    with nP show False by (simp add: py_eq_refl)
  qed
  moreover from wn b have "owner b \<in> set (f # fs)"
    using set_dropWhileD [OF b] fs by (auto simp: well_nested_def)
  ultimately show "owner b \<in> set fs" by simp
qed

lemma well_nested_return_pop:
  assumes wn: "well_nested s" and fs: "function_stack s = f # fs"
    and t: "function_stack t = fs"
      "block_stack t = dropWhile (\<lambda>b. frame_eq (locals s) (owner b) f) (block_stack s)"
      "length (locals t) = length (locals s)"
  shows "well_nested t"
proof -
  let ?P = "\<lambda>b. frame_eq (locals s) (owner b) f"
  have split: "block_stack s = takeWhile ?P (block_stack s) @ dropWhile ?P (block_stack s)"
    by simp
  have fs': "function_stack s = [f] @ fs" using fs by simp
  show ?thesis
    using well_nested_popped [OF wn fs' split dropped_own_blocks [OF wn fs]] t by simp
qed

text \<open>The frames popped by an exception unwind own no block.\<close>

lemma well_nested_exception_pop:
  assumes wn: "well_nested s" and bs: "block_stack s = b0 # bs"
    and pf: "pop_frames (locals s) (owner b0) (function_stack s) = Some rest"
  shows "\<forall>b\<in>set (b0 # bs). owner b \<in> set rest"
proof
  fix b assume b: "b \<in> set (b0 # bs)"
  from pop_frames_Some [OF pf] obtain popped where
    split: "function_stack s = popped @ rest" and
    np: "\<forall>f\<in>set popped. \<not> frame_eq (locals s) (owner b0) f" by blast
  from wn bs have "owner b0 \<in> set (function_stack s)" by (auto simp: well_nested_def)
  with split np have b0: "owner b0 \<in> set rest" by (auto simp: py_eq_refl)
  from wn bs b have le: "fid (owner b) \<le> fid (owner b0)" by (auto simp: well_nested_def)
  from wn bs b have "owner b \<in> set (function_stack s)" by (auto simp: well_nested_def)
  moreover have "owner b \<notin> set popped"
  proof
    assume "owner b \<in> set popped"
    with wn split b0 have "fid (owner b0) < fid (owner b)"
      by (auto simp: well_nested_def sorted_wrt_append)
    with le show False by simp
  qed
  ultimately show "owner b \<in> set rest" using split by simp
qed

lemma unwind_block_well_nested:
  assumes wn: "well_nested s" and ub: "unwind_block s = Inr t"
  shows "well_nested t"
proof -
  from ub obtain b0 bs where bs: "block_stack s = b0 # bs"
    by (cases "block_stack s") (auto simp: unwind_block_def)
  from ub bs obtain f fs where fs: "function_stack s = f # fs"
    by (cases "function_stack s") (auto simp: unwind_block_def)
  from ub bs fs obtain r where r: "unwind_reason s = Some r"
    by (cases "unwind_reason s") (auto simp: unwind_block_def)
  show ?thesis
  proof (cases r)
    case UNWIND_EXCEPTION
    with ub bs fs r obtain rest where
      pf: "pop_frames (locals s) (owner b0) (function_stack s) = Some rest"
      by (cases "pop_frames (locals s) (owner b0) (function_stack s)")
         (auto simp: unwind_block_def)
    from pop_frames_Some [OF pf] obtain popped where
      split: "function_stack s = popped @ rest" by blast
    have own: "\<forall>b\<in>set (b0 # bs). owner b \<in> set rest"
      using wn bs pf by (rule well_nested_exception_pop)
    from ub bs fs r UNWIND_EXCEPTION pf
    consider "function_stack t = rest" "block_stack t = bs" "locals t = locals s"
      | "function_stack t = rest" "block_stack t = b0 # bs" "locals t = locals s"
      by (auto simp: unwind_block_def split: if_splits)
    then show ?thesis
    proof cases
      case 1
      have "block_stack s = [b0] @ bs" using bs by simp
      with wn split own 1 show ?thesis
        using well_nested_popped [of s popped rest "[b0]" bs t] by simp
    next
      case 2
      have "block_stack s = [] @ (b0 # bs)" using bs by simp
      with wn split own 2 show ?thesis
        using well_nested_popped [of s popped rest "[]" "b0 # bs" t] by simp
    qed
  next
    case UNWIND_RETURN
    let ?P = "\<lambda>b. frame_eq (locals s) (owner b) f"
    show ?thesis
    proof (cases "last_block ''defer'' (block_stack s)")
      case None
      with ub bs fs r UNWIND_RETURN have
        "function_stack t = fs" "block_stack t = dropWhile ?P (block_stack s)"
        "length (locals t) = length (locals s)"
        by (auto simp: unwind_block_def)
      with wn fs show ?thesis by (rule well_nested_return_pop)
    next
      case (Some d)
      show ?thesis
      proof (cases "frame_eq (locals s) (owner d) f")
        case True
        let ?Q = "\<lambda>b. \<not> block_eq (locals s) b d"
        from True Some ub bs fs r UNWIND_RETURN have
          t: "function_stack t = function_stack s" "block_stack t = dropWhile ?Q (block_stack s)"
          "length (locals t) = length (locals s)"
          by (auto simp: unwind_block_def)
        have "block_stack s = takeWhile ?Q (block_stack s) @ dropWhile ?Q (block_stack s)"
          by simp
        with wn show ?thesis using t by (rule well_nested_blocks_popped)
      next
        case False
        with Some ub bs fs r UNWIND_RETURN have
          "function_stack t = fs" "block_stack t = dropWhile ?P (block_stack s)"
          "length (locals t) = length (locals s)"
          by (auto simp: unwind_block_def)
        with wn fs show ?thesis by (rule well_nested_return_pop)
      qed
    qed
  qed
qed

subsection \<open>Every operation keeps the discipline\<close>

lemma push_block_well_nested:
  assumes wn: "well_nested s" and pb: "push_block cm k h c s = Inr t"
    and k: "k = ''catch'' \<or> k = ''defer''"
  shows "well_nested t"
proof -
  from pb obtain f fs where fs: "function_stack s = f # fs"
    by (cases "function_stack s") (auto simp: push_block_def)
  from pb fs obtain b where t: "t = s\<lparr>block_stack := b # block_stack s\<rparr>"
    and b: "owner b = f" "kind b = k"
    by (auto simp: push_block_def Let_def split: option.splits)
  have "\<forall>c\<in>set (block_stack s). fid (owner c) \<le> fid f"
  proof
    fix c assume "c \<in> set (block_stack s)"
    with wn fs have "owner c \<in> set (f # fs)" by (auto simp: well_nested_def)
    then show "fid (owner c) \<le> fid f" by (rule well_nested_top_fid(1) [OF wn fs])
  qed
  with wn fs t b k show ?thesis by (auto simp: well_nested_def)
qed

lemma op_setupcatch_well_nested:
  assumes wn: "well_nested s" and u: "op_setupcatch cm i s = Inr t"
  shows "well_nested t"
proof -
  from u obtain h c t' where pb: "push_block cm ''catch'' h c s = Inr t'"
    and t: "t = t'\<lparr>instruction_ptr := Addr (i + 2)\<rparr>"
    by (auto simp: op_setupcatch_def split: option.splits sum.splits)
  from wn pb have "well_nested t'" by (rule push_block_well_nested) simp
  then show ?thesis using well_nested_same [of t' t] t by simp
qed

lemma op_setupdefer_well_nested:
  assumes wn: "well_nested s" and u: "op_setupdefer cm i s = Inr t"
  shows "well_nested t"
proof -
  from u obtain h c t' where pb: "push_block cm ''defer'' h c s = Inr t'"
    and t: "t = t'\<lparr>instruction_ptr := Addr (i + 3)\<rparr>"
    by (auto simp: op_setupdefer_def split: option.splits sum.splits)
  from wn pb have "well_nested t'" by (rule push_block_well_nested) simp
  then show ?thesis using well_nested_same [of t' t] t by simp
qed

lemma op_call_well_nested:
  assumes wn: "well_nested s" and c: "op_call cm i s = Inr t"
  shows "well_nested t"
proof -
  from c obtain g where t: "function_stack t = g # function_stack s"
    "fid g = length (locals s)" "block_stack t = block_stack s"
    "length (locals t) = Suc (length (locals s))"
    by (auto simp: op_call_def Let_def split: option.splits)
  with wn show ?thesis by (auto simp: well_nested_def less_Suc_eq)
qed

lemma op_unwind_well_nested:
  assumes wn: "well_nested s" and u: "op_unwind s = Inr t"
  shows "well_nested t"
proof -
  from u obtain b0 bs where bs: "block_stack s = b0 # bs"
    by (cases "block_stack s") (auto simp: op_unwind_def)
  from u bs consider "function_stack t = function_stack s" "block_stack t = bs"
      "locals t = locals s"
    | "function_stack t = function_stack s" "block_stack t = block_stack s"
      "locals t = locals s"
    by (auto simp: op_unwind_def split: if_splits)
  then show ?thesis
  proof cases
    case 1
    have "block_stack s = [b0] @ bs" using bs by simp
    with wn show ?thesis using 1 well_nested_blocks_popped [of s "[b0]" bs t] by simp
  next
    case 2
    with wn show ?thesis using well_nested_same [of s t] by simp
  qed
qed

lemma op_defercontinue_well_nested:
  assumes wn: "well_nested s" and u: "op_defercontinue s = Inr t"
  shows "well_nested t"
proof -
  from u obtain b0 bs where bs: "block_stack s = b0 # bs"
    by (cases "block_stack s") (auto simp: op_defercontinue_def)
  have split: "block_stack s = [b0] @ bs" using bs by simp
  have wn': "well_nested (s\<lparr>block_stack := bs\<rparr>)"
    using well_nested_blocks_popped [OF wn split, of "s\<lparr>block_stack := bs\<rparr>"] by simp
  from u bs consider "unwind_block (s\<lparr>block_stack := bs\<rparr>) = Inr t"
    | "function_stack t = function_stack s" "block_stack t = bs" "locals t = locals s"
    by (auto simp: op_defercontinue_def split: if_splits)
  then show ?thesis
  proof cases
    case 1
    with wn' show ?thesis by (rule unwind_block_well_nested)
  next
    case 2
    with wn split show ?thesis using well_nested_blocks_popped [of s "[b0]" bs t] by simp
  qed
qed

lemma op_throw_well_nested:
  assumes wn: "well_nested s" and u: "op_throw s = Inr t"
  shows "well_nested t"
proof -
  have wn': "well_nested (s\<lparr>unwind_reason := Some UNWIND_EXCEPTION\<rparr>)"
    using well_nested_same [OF wn, of "s\<lparr>unwind_reason := Some UNWIND_EXCEPTION\<rparr>"] by simp
  from u have "unwind_block (s\<lparr>unwind_reason := Some UNWIND_EXCEPTION\<rparr>) = Inr t"
    by (auto simp: op_throw_def split: option.splits)
  with wn' show ?thesis by (rule unwind_block_well_nested)
qed

lemma op_ret_well_nested:
  assumes wn: "well_nested s" and u: "op_ret s = Inr t"
  shows "well_nested t"
proof -
  from u obtain f fs where fs: "function_stack s = f # fs"
    by (cases "function_stack s") (auto simp: op_ret_def)
  have wn': "well_nested (s\<lparr>unwind_reason := Some UNWIND_RETURN\<rparr>)"
    using well_nested_same [OF wn, of "s\<lparr>unwind_reason := Some UNWIND_RETURN\<rparr>"] by simp
  from u fs consider "unwind_block (s\<lparr>unwind_reason := Some UNWIND_RETURN\<rparr>) = Inr t"
    | "function_stack t = fs" "block_stack t = block_stack s" "locals t = locals s"
      "block_stack s = [] \<or>
         block_opt_eq (locals s) (marker f) (Some (hd (block_stack s)))"
    by (cases "block_stack s") (auto simp: op_ret_def split: if_splits)
  then show ?thesis
  proof cases
    case 1
    with wn' show ?thesis by (rule unwind_block_well_nested)
  next
    case 2
    have own: "\<forall>b\<in>set (block_stack s). owner b \<in> set fs"
    proof
      fix b assume b: "b \<in> set (block_stack s)"
      then obtain b0 bs where bs: "block_stack s = b0 # bs" by (cases "block_stack s") auto
      with 2(4) have mk: "block_opt_eq (locals s) (marker f) (Some b0)" by simp
      have "owner b \<noteq> f"
      proof
        assume "owner b = f"
        then have "owner b0 = f"
          using well_nested_top_owner [OF wn fs bs] b bs by simp
        then have "frame_eq (locals s) (owner b0) f" by (simp add: py_eq_refl)
        with mk show False using owned_block_not_marker by blast
      qed
      moreover from wn b fs have "owner b \<in> set (f # fs)" by (auto simp: well_nested_def)
      ultimately show "owner b \<in> set fs" by simp
    qed
    have f1: "function_stack s = [f] @ fs" using fs by simp
    have b1: "block_stack s = [] @ block_stack s" by simp
    show ?thesis
      using well_nested_popped [OF wn f1 b1 own] 2 by simp
  qed
qed

lemma op_load_stacks:
  "op_load cm i s = Inr t \<Longrightarrow> function_stack t = function_stack s \<and>
     block_stack t = block_stack s \<and> length (locals t) = length (locals s)"
  by (auto simp: op_load_def split: option.splits)

lemma op_getnumber_stacks:
  "op_getnumber i s = Inr t \<Longrightarrow> function_stack t = function_stack s \<and>
     block_stack t = block_stack s \<and> length (locals t) = length (locals s)"
  by (auto simp: op_getnumber_def split: list.splits option.splits)

lemma op_writelocal_stacks:
  "op_writelocal cm i s = Inr t \<Longrightarrow> function_stack t = function_stack s \<and>
     block_stack t = block_stack s \<and> length (locals t) = length (locals s)"
  by (auto simp: op_writelocal_def split: list.splits option.splits val.splits)

lemma op_loadlocal_stacks:
  "op_loadlocal cm i s = Inr t \<Longrightarrow> function_stack t = function_stack s \<and>
     block_stack t = block_stack s \<and> length (locals t) = length (locals s)"
  by (auto simp: op_loadlocal_def split: list.splits option.splits val.splits)

lemma op_jmp_stacks:
  "op_jmp cm i s = Inr t \<Longrightarrow> function_stack t = function_stack s \<and>
     block_stack t = block_stack s \<and> length (locals t) = length (locals s)"
  by (auto simp: op_jmp_def split: option.splits)

lemma op_jmpif_stacks:
  "op_jmpif cm i s = Inr t \<Longrightarrow> function_stack t = function_stack s \<and>
     block_stack t = block_stack s \<and> length (locals t) = length (locals s)"
  by (auto simp: op_jmpif_def split: list.splits option.splits if_splits)

lemma op_print_stacks:
  "op_print i s = Inr t \<Longrightarrow> function_stack t = function_stack s \<and>
     block_stack t = block_stack s \<and> length (locals t) = length (locals s)"
  by (auto simp: op_print_def split: list.splits)

lemma op_add_stacks:
  "op_add i s = Inr t \<Longrightarrow> function_stack t = function_stack s \<and>
     block_stack t = block_stack s \<and> length (locals t) = length (locals s)"
  by (auto simp: op_add_def split: list.splits option.splits)

lemma op_cmp_stacks:
  "op_cmp i s = Inr t \<Longrightarrow> function_stack t = function_stack s \<and>
     block_stack t = block_stack s \<and> length (locals t) = length (locals s)"
  by (auto simp: op_cmp_def split: list.splits)

lemma op_exit_stacks:
  "op_exit s = Inr t \<Longrightarrow> function_stack t = function_stack s \<and>
     block_stack t = block_stack s \<and> length (locals t) = length (locals s)"
  by (auto simp: op_exit_def split: list.splits)

lemma op_dup_stacks:
  "op_dup i s = Inr t \<Longrightarrow> function_stack t = function_stack s \<and>
     block_stack t = block_stack s \<and> length (locals t) = length (locals s)"
  by (auto simp: op_dup_def split: list.splits)

lemma exec_op_cases:
  assumes "exec_op cm opcode i s = Inr t"
  shows "op_load cm i s = Inr t \<or> op_getnumber i s = Inr t \<or> op_writelocal cm i s = Inr t \<or>
         op_loadlocal cm i s = Inr t \<or> op_jmp cm i s = Inr t \<or> op_jmpif cm i s = Inr t \<or>
         op_print i s = Inr t \<or> op_add i s = Inr t \<or> op_cmp i s = Inr t \<or>
         op_exit s = Inr t \<or> op_dup i s = Inr t \<or>
         op_setupcatch cm i s = Inr t \<or> op_setupdefer cm i s = Inr t \<or>
         op_call cm i s = Inr t \<or> op_unwind s = Inr t \<or> op_defercontinue s = Inr t \<or>
         op_ret s = Inr t \<or> op_throw s = Inr t"
  using assms unfolding exec_op_def by (simp split: if_splits)

lemma exec_op_well_nested:
  assumes wn: "well_nested s" and ex: "exec_op cm opcode i s = Inr t"
  shows "well_nested t"
proof -
  from exec_op_cases [OF ex] consider
      (simple) "function_stack t = function_stack s \<and> block_stack t = block_stack s \<and>
         length (locals t) = length (locals s)"
    | (setupcatch) "op_setupcatch cm i s = Inr t"
    | (setupdefer) "op_setupdefer cm i s = Inr t"
    | (call) "op_call cm i s = Inr t"
    | (unwind) "op_unwind s = Inr t"
    | (defercontinue) "op_defercontinue s = Inr t"
    | (ret) "op_ret s = Inr t"
    | (throw) "op_throw s = Inr t"
    using op_load_stacks [of cm i s t] op_getnumber_stacks [of i s t]
      op_writelocal_stacks [of cm i s t] op_loadlocal_stacks [of cm i s t]
      op_jmp_stacks [of cm i s t] op_jmpif_stacks [of cm i s t] op_print_stacks [of i s t]
      op_add_stacks [of i s t] op_cmp_stacks [of i s t] op_exit_stacks [of s t]
      op_dup_stacks [of i s t]
    by blast
  then show ?thesis
  proof cases
    case simple
    with wn show ?thesis using well_nested_same [of s t] by simp
  next
    case setupcatch
    with wn show ?thesis by (rule op_setupcatch_well_nested)
  next
    case setupdefer
    with wn show ?thesis by (rule op_setupdefer_well_nested)
  next
    case call
    with wn show ?thesis by (rule op_call_well_nested)
  next
    case unwind
    with wn show ?thesis by (rule op_unwind_well_nested)
  next
    case defercontinue
    with wn show ?thesis by (rule op_defercontinue_well_nested)
  next
    case ret
    with wn show ?thesis by (rule op_ret_well_nested)
  next
    case throw
    with wn show ?thesis by (rule op_throw_well_nested)
  qed
qed

lemma step_well_nested:
  assumes wn: "well_nested s" and st: "step cm s = Inr t"
  shows "well_nested t"
proof -
  from st obtain i where ip: "instruction_ptr s = Addr i"
    by (cases "instruction_ptr s") (auto simp: step_def)
  from st ip obtain c where c: "at cm i = Some c"
    by (cases "at cm i") (auto simp: step_def)
  show ?thesis
  proof (cases c)
    case (S l)
    with st ip c have "t = s\<lparr>instruction_ptr := Addr (i + 1)\<rparr>" by (simp add: step_def)
    with wn show ?thesis using well_nested_same [of s t] by simp
  next
    case (I opcode)
    with st ip c have "exec_op cm opcode i s = Inr t" by (simp add: step_def)
    with wn show ?thesis by (rule exec_op_well_nested)
  qed
qed

lemma reachable_well_nested: "reachable cm input s \<Longrightarrow> well_nested s"
  by (induction rule: reachable.induct) (auto intro: well_nested_init step_well_nested)

section \<open>Owner frames are live\<close>

text \<open>
  Claim C8. In every state the loop can reach, for any program and input, the owner
  frame of every block on the block stack is on the function stack; and a frame that
  an iteration of the loop removes from the function stack owns no block that is
  left on the block stack.
\<close>

theorem owner_frames_live:
  assumes "reachable cm input s"
  shows "(\<forall>b\<in>set (block_stack s). owner b \<in> set (function_stack s)) \<and>
         (\<forall>t. step cm s = Inr t \<longrightarrow>
            (\<forall>b\<in>set (block_stack t). owner b \<in> set (function_stack t)) \<and>
            (\<forall>f\<in>set (function_stack s). f \<notin> set (function_stack t) \<longrightarrow>
               (\<forall>b\<in>set (block_stack t). owner b \<noteq> f)))"
proof -
  have wn: "well_nested s" using assms by (rule reachable_well_nested)
  then have 1: "\<forall>b\<in>set (block_stack s). owner b \<in> set (function_stack s)"
    by (simp add: well_nested_def)
  have 2: "\<forall>t. step cm s = Inr t \<longrightarrow>
            (\<forall>b\<in>set (block_stack t). owner b \<in> set (function_stack t)) \<and>
            (\<forall>f\<in>set (function_stack s). f \<notin> set (function_stack t) \<longrightarrow>
               (\<forall>b\<in>set (block_stack t). owner b \<noteq> f))"
  proof (intro allI impI)
    fix t assume "step cm s = Inr t"
    with wn have "well_nested t" by (rule step_well_nested)
    then have "\<forall>b\<in>set (block_stack t). owner b \<in> set (function_stack t)"
      by (simp add: well_nested_def)
    then show "(\<forall>b\<in>set (block_stack t). owner b \<in> set (function_stack t)) \<and>
            (\<forall>f\<in>set (function_stack s). f \<notin> set (function_stack t) \<longrightarrow>
               (\<forall>b\<in>set (block_stack t). owner b \<noteq> f))"
      by blast
  qed
  from 1 2 show ?thesis by blast
qed

text \<open>
  The prototype's program at the throw of \<^verbatim>\<open>add\<close>, with five blocks and three frames,
  and at the continue of \<^verbatim>\<open>prevent_14\<close> on the input 7 and 7, which pops the frame of
  \<^verbatim>\<open>prevent_14\<close> together with its defer block.
\<close>

theorem owner_frames_live_witness:
  "reachable code_memory [Some 3, Some 4] st_throw \<and>
   owner catch_add \<in> set (function_stack st_throw) \<and>
   owner defer_main \<in> set (function_stack st_throw) \<and>
   reachable code_memory [Some 7, Some 7] st_continue_14 \<and>
   step code_memory st_continue_14 =
     Inr (st_continue_14\<lparr>function_stack := [main_frame],
            block_stack := [defer_main, catch_main], instruction_ptr := Addr 26\<rparr>) \<and>
   owner defer_main \<in> set [main_frame]"
proof -
  have r1: "reachable code_memory [Some 3, Some 4] st_throw"
    using run_reachable [OF reachable_init reached_states(3)] .
  have r2: "reachable code_memory [Some 7, Some 7] st_continue_14"
    using run_reachable [OF reachable_init reached_states(10)] .
  have b1: "catch_add \<in> set (block_stack st_throw)" "defer_main \<in> set (block_stack st_throw)"
    by (simp_all add: st_throw_def)
  have st: "step code_memory st_continue_14 =
     Inr (st_continue_14\<lparr>function_stack := [main_frame],
            block_stack := [defer_main, catch_main], instruction_ptr := Addr 26\<rparr>)"
    by code_simp
  from owner_frames_live [OF r1] b1
  have 1: "owner catch_add \<in> set (function_stack st_throw)"
    "owner defer_main \<in> set (function_stack st_throw)"
    by blast+
  from owner_frames_live [OF r2] st
  have "\<forall>b\<in>set (block_stack (st_continue_14\<lparr>function_stack := [main_frame],
            block_stack := [defer_main, catch_main], instruction_ptr := Addr 26\<rparr>)).
          owner b \<in> set (function_stack (st_continue_14\<lparr>function_stack := [main_frame],
            block_stack := [defer_main, catch_main], instruction_ptr := Addr 26\<rparr>))"
    by blast
  then have 2: "owner defer_main \<in> set [main_frame]" by simp
  from r1 r2 1 st 2 show ?thesis by blast
qed

section \<open>Throw\<close>

lemma throw_without_catch:
  assumes "instruction_ptr s = Addr i" and "at cm i = Some (I OP_THROW)"
    and "\<forall>b\<in>set (block_stack s). kind b \<noteq> ''catch''"
  shows "step cm s = Inl (Exception ''no exception handler found'')"
proof -
  from assms(3) have "last_block ''catch'' (block_stack s) = None"
    by (simp add: last_block_None)
  with assms(1,2) show ?thesis by (simp add: step_throw op_throw_def)
qed

lemma throw_with_catch:
  assumes "instruction_ptr s = Addr i" and "at cm i = Some (I OP_THROW)"
    and "\<exists>b\<in>set (block_stack s). kind b = ''catch''"
  shows "step cm s = unwind_block (s\<lparr>unwind_reason := Some UNWIND_EXCEPTION\<rparr>)"
proof -
  from assms(3) have "last_block ''catch'' (block_stack s) \<noteq> None"
    by (simp add: last_block_None)
  with assms(1,2) show ?thesis by (auto simp: step_throw op_throw_def)
qed

lemma unwind_block_not_unhandled:
  "unwind_block s \<noteq> Inl (Exception ''no exception handler found'')"
  by (auto simp: unwind_block_def split: list.splits option.splits reason.splits)

text \<open>The exception unwind, once the reason is set.\<close>

lemma unwind_block_exception:
  assumes r: "unwind_reason s = Some UNWIND_EXCEPTION" and bs: "block_stack s = top_block # bs"
    and pf: "pop_frames (locals s) (owner top_block) (function_stack s) = Some rest"
  shows "kind top_block = ''catch'' \<Longrightarrow>
           unwind_block s = Inr (s\<lparr>function_stack := rest, block_stack := bs,
             unwind_reason := None, instruction_ptr := Addr (handler top_block)\<rparr>)"
    and "kind top_block = ''defer'' \<Longrightarrow>
           unwind_block s = Inr (s\<lparr>function_stack := rest,
             instruction_ptr := Addr (handler top_block)\<rparr>)"
    and "kind top_block \<noteq> ''catch'' \<Longrightarrow> kind top_block \<noteq> ''defer'' \<Longrightarrow>
           unwind_block s = Inl (Exception ''unexpected block type'')"
proof -
  from pf obtain f fs where fs: "function_stack s = f # fs"
    by (cases "function_stack s") auto
  show "kind top_block = ''catch'' \<Longrightarrow>
           unwind_block s = Inr (s\<lparr>function_stack := rest, block_stack := bs,
             unwind_reason := None, instruction_ptr := Addr (handler top_block)\<rparr>)"
    using r bs pf fs unfolding unwind_block_def by simp
  show "kind top_block = ''defer'' \<Longrightarrow>
           unwind_block s = Inr (s\<lparr>function_stack := rest,
             instruction_ptr := Addr (handler top_block)\<rparr>)"
    using r bs pf fs unfolding unwind_block_def by simp
  show "kind top_block \<noteq> ''catch'' \<Longrightarrow> kind top_block \<noteq> ''defer'' \<Longrightarrow>
           unwind_block s = Inl (Exception ''unexpected block type'')"
    using r bs pf fs unfolding unwind_block_def by simp
qed

lemma unwind_block_exception_fatal:
  assumes r: "unwind_reason s = Some UNWIND_EXCEPTION" and bs: "block_stack s = top_block # bs"
    and pf: "pop_frames (locals s) (owner top_block) (function_stack s) = None"
  shows "\<exists>e. unwind_block s = Inl e"
  using assms unfolding unwind_block_def by (cases "function_stack s") simp_all

lemma throw_succeeds:
  assumes re: "reachable cm input s" and ip: "instruction_ptr s = Addr i"
    and op: "at cm i = Some (I OP_THROW)"
    and c: "\<exists>b\<in>set (block_stack s). kind b = ''catch''"
  shows "\<exists>t. step cm s = Inr t"
proof -
  have wn: "well_nested s" using re by (rule reachable_well_nested)
  from c obtain b0 bs where bs: "block_stack s = b0 # bs" by (cases "block_stack s") auto
  let ?s = "s\<lparr>unwind_reason := Some UNWIND_EXCEPTION\<rparr>"
  from wn bs have "owner b0 \<in> set (function_stack s)" by (simp add: well_nested_def)
  then have "pop_frames (locals s) (owner b0) (function_stack s) \<noteq> None"
    using py_eq_refl(1) by (auto simp: pop_frames_None)
  then obtain rest where
    pf: "pop_frames (locals ?s) (owner b0) (function_stack ?s) = Some rest" by auto
  have r: "unwind_reason ?s = Some UNWIND_EXCEPTION" and bs': "block_stack ?s = b0 # bs"
    using bs by simp_all
  from wn bs have "kind b0 = ''catch'' \<or> kind b0 = ''defer''" by (simp add: well_nested_def)
  then have "\<exists>t. unwind_block ?s = Inr t"
    using unwind_block_exception(1,2) [OF r bs' pf] by blast
  then show ?thesis using throw_with_catch [OF ip op c] by simp
qed

text \<open>
  Claim C3. A throw with no catch block anywhere on the block stack raises the fault
  \<^verbatim>\<open>no exception handler found\<close>; a throw with a catch block somewhere on the block
  stack is the exception unwind. In every state the loop can reach, the throw
  transfers control (it returns a next state) if and only if a catch block exists.
\<close>

theorem throw_recoverable_iff_catch:
  assumes "instruction_ptr s = Addr i" and "at cm i = Some (I OP_THROW)"
  shows "((\<forall>b\<in>set (block_stack s). kind b \<noteq> ''catch'') \<longrightarrow>
            step cm s = Inl (Exception ''no exception handler found'')) \<and>
         ((\<exists>b\<in>set (block_stack s). kind b = ''catch'') \<longrightarrow>
            step cm s = unwind_block (s\<lparr>unwind_reason := Some UNWIND_EXCEPTION\<rparr>) \<and>
            step cm s \<noteq> Inl (Exception ''no exception handler found'')) \<and>
         (reachable cm input s \<longrightarrow>
            ((\<exists>t. step cm s = Inr t) \<longleftrightarrow> (\<exists>b\<in>set (block_stack s). kind b = ''catch'')))"
proof -
  have 1: "(\<forall>b\<in>set (block_stack s). kind b \<noteq> ''catch'') \<longrightarrow>
            step cm s = Inl (Exception ''no exception handler found'')"
    using throw_without_catch [OF assms] by blast
  have 2: "(\<exists>b\<in>set (block_stack s). kind b = ''catch'') \<longrightarrow>
            step cm s = unwind_block (s\<lparr>unwind_reason := Some UNWIND_EXCEPTION\<rparr>) \<and>
            step cm s \<noteq> Inl (Exception ''no exception handler found'')"
    using throw_with_catch [OF assms] unwind_block_not_unhandled by simp
  have 3: "reachable cm input s \<longrightarrow>
            ((\<exists>t. step cm s = Inr t) \<longleftrightarrow> (\<exists>b\<in>set (block_stack s). kind b = ''catch''))"
  proof
    assume re: "reachable cm input s"
    show "(\<exists>t. step cm s = Inr t) \<longleftrightarrow> (\<exists>b\<in>set (block_stack s). kind b = ''catch'')"
    proof
      assume "\<exists>t. step cm s = Inr t"
      with 1 show "\<exists>b\<in>set (block_stack s). kind b = ''catch''" by auto
    next
      assume "\<exists>b\<in>set (block_stack s). kind b = ''catch''"
      with re assms show "\<exists>t. step cm s = Inr t" by (rule throw_succeeds)
    qed
  qed
  from 1 2 3 show ?thesis by blast
qed

text \<open>
  The throw of \<^verbatim>\<open>add\<close> in the prototype's program, which its own catch block handles
  at 51, and a throw on an empty block stack.
\<close>

theorem throw_recoverable_iff_catch_witness:
  "reachable code_memory [Some 3, Some 4] st_throw \<and>
   kind catch_add = ''catch'' \<and>
   step code_memory st_throw
     = Inr (st_throw\<lparr>block_stack := [defer_add, defer_p14, defer_main, catch_main],
                     instruction_ptr := Addr 51\<rparr>) \<and>
   step code_memory st_throw = unwind_block (st_throw\<lparr>unwind_reason := Some UNWIND_EXCEPTION\<rparr>) \<and>
   step code_memory (st_throw\<lparr>block_stack := []\<rparr>) =
     Inl (Exception ''no exception handler found'')"
proof -
  have r1: "reachable code_memory [Some 3, Some 4] st_throw"
    using run_reachable [OF reachable_init reached_states(3)] .
  have ip: "instruction_ptr st_throw = Addr 50"
    "instruction_ptr (st_throw\<lparr>block_stack := []\<rparr>) = Addr 50"
    by (simp_all add: st_throw_def)
  have op: "at code_memory 50 = Some (I OP_THROW)" by code_simp
  have c: "catch_add \<in> set (block_stack st_throw)" "kind catch_add = ''catch''"
    by (simp_all add: st_throw_def frame_defs)
  have st: "step code_memory st_throw
     = Inr (st_throw\<lparr>block_stack := [defer_add, defer_p14, defer_main, catch_main],
                     instruction_ptr := Addr 51\<rparr>)" by code_simp
  from throw_recoverable_iff_catch [OF ip(1) op, of "[Some 3, Some 4]"] c
  have 1: "step code_memory st_throw =
      unwind_block (st_throw\<lparr>unwind_reason := Some UNWIND_EXCEPTION\<rparr>)"
    by blast
  from throw_recoverable_iff_catch [OF ip(2) op, of "[]"]
  have 2: "step code_memory (st_throw\<lparr>block_stack := []\<rparr>) =
     Inl (Exception ''no exception handler found'')"
    by simp
  from r1 c(2) st 1 2 show ?thesis by blast
qed

section \<open>Exception unwind\<close>

text \<open>
  Claim C1. A throw with a catch block somewhere on the block stack pops frames from
  the function stack until the top frame equals the owner frame of the top block;
  no return address of a popped frame is used. A catch block on top is then popped,
  the reason is cleared and control goes to its handler offset; a defer block on top
  is kept, control goes to its handler offset and the reason stays
  \<^verbatim>\<open>UNWIND_EXCEPTION\<close>; any other block kind is fatal. When no frame equals the owner
  frame the throw is fatal as well.
\<close>

theorem exception_unwind:
  assumes ip: "instruction_ptr s = Addr i" and op: "at cm i = Some (I OP_THROW)"
    and c: "\<exists>b\<in>set (block_stack s). kind b = ''catch''"
    and bs: "block_stack s = top_block # bs"
  shows "((\<exists>f\<in>set (function_stack s). frame_eq (locals s) (owner top_block) f) \<longrightarrow>
          (\<exists>popped rest.
             function_stack s = popped @ rest \<and>
             (\<forall>f\<in>set popped. \<not> frame_eq (locals s) (owner top_block) f) \<and>
             rest \<noteq> [] \<and> frame_eq (locals s) (owner top_block) (hd rest) \<and>
             (kind top_block = ''catch'' \<longrightarrow>
                step cm s = Inr (s\<lparr>unwind_reason := None, function_stack := rest,
                  block_stack := bs, instruction_ptr := Addr (handler top_block)\<rparr>)) \<and>
             (kind top_block = ''defer'' \<longrightarrow>
                step cm s = Inr (s\<lparr>unwind_reason := Some UNWIND_EXCEPTION,
                  function_stack := rest, instruction_ptr := Addr (handler top_block)\<rparr>)) \<and>
             (kind top_block \<noteq> ''catch'' \<and> kind top_block \<noteq> ''defer'' \<longrightarrow>
                step cm s = Inl (Exception ''unexpected block type'')))) \<and>
         ((\<forall>f\<in>set (function_stack s). \<not> frame_eq (locals s) (owner top_block) f) \<longrightarrow>
          (\<exists>e. step cm s = Inl e))"
proof -
  let ?s = "s\<lparr>unwind_reason := Some UNWIND_EXCEPTION\<rparr>"
  have st: "step cm s = unwind_block ?s" using ip op c by (rule throw_with_catch)
  have r: "unwind_reason ?s = Some UNWIND_EXCEPTION" and bs': "block_stack ?s = top_block # bs"
    using bs by simp_all
  have 1: "(\<exists>f\<in>set (function_stack s). frame_eq (locals s) (owner top_block) f) \<longrightarrow>
          (\<exists>popped rest.
             function_stack s = popped @ rest \<and>
             (\<forall>f\<in>set popped. \<not> frame_eq (locals s) (owner top_block) f) \<and>
             rest \<noteq> [] \<and> frame_eq (locals s) (owner top_block) (hd rest) \<and>
             (kind top_block = ''catch'' \<longrightarrow>
                step cm s = Inr (s\<lparr>unwind_reason := None, function_stack := rest,
                  block_stack := bs, instruction_ptr := Addr (handler top_block)\<rparr>)) \<and>
             (kind top_block = ''defer'' \<longrightarrow>
                step cm s = Inr (s\<lparr>unwind_reason := Some UNWIND_EXCEPTION,
                  function_stack := rest, instruction_ptr := Addr (handler top_block)\<rparr>)) \<and>
             (kind top_block \<noteq> ''catch'' \<and> kind top_block \<noteq> ''defer'' \<longrightarrow>
                step cm s = Inl (Exception ''unexpected block type'')))"
  proof
    assume "\<exists>f\<in>set (function_stack s). frame_eq (locals s) (owner top_block) f"
    then have "pop_frames (locals s) (owner top_block) (function_stack s) \<noteq> None"
      by (simp add: pop_frames_None)
    then obtain rest where
      pf: "pop_frames (locals s) (owner top_block) (function_stack s) = Some rest" by auto
    then have pf': "pop_frames (locals ?s) (owner top_block) (function_stack ?s) = Some rest"
      by simp
    from pop_frames_Some [OF pf] obtain popped where
      p: "function_stack s = popped @ rest"
        "\<forall>f\<in>set popped. \<not> frame_eq (locals s) (owner top_block) f"
        "rest \<noteq> []" "frame_eq (locals s) (owner top_block) (hd rest)" by blast
    have a: "kind top_block = ''catch'' \<longrightarrow>
                step cm s = Inr (s\<lparr>unwind_reason := None, function_stack := rest,
                  block_stack := bs, instruction_ptr := Addr (handler top_block)\<rparr>)"
      using unwind_block_exception(1) [OF r bs' pf'] st by simp
    have b: "kind top_block = ''defer'' \<longrightarrow>
                step cm s = Inr (s\<lparr>unwind_reason := Some UNWIND_EXCEPTION,
                  function_stack := rest, instruction_ptr := Addr (handler top_block)\<rparr>)"
      using unwind_block_exception(2) [OF r bs' pf'] st by simp
    have d: "kind top_block \<noteq> ''catch'' \<and> kind top_block \<noteq> ''defer'' \<longrightarrow>
                step cm s = Inl (Exception ''unexpected block type'')"
      using unwind_block_exception(3) [OF r bs' pf'] st by simp
    from p a b d show "\<exists>popped rest.
             function_stack s = popped @ rest \<and>
             (\<forall>f\<in>set popped. \<not> frame_eq (locals s) (owner top_block) f) \<and>
             rest \<noteq> [] \<and> frame_eq (locals s) (owner top_block) (hd rest) \<and>
             (kind top_block = ''catch'' \<longrightarrow>
                step cm s = Inr (s\<lparr>unwind_reason := None, function_stack := rest,
                  block_stack := bs, instruction_ptr := Addr (handler top_block)\<rparr>)) \<and>
             (kind top_block = ''defer'' \<longrightarrow>
                step cm s = Inr (s\<lparr>unwind_reason := Some UNWIND_EXCEPTION,
                  function_stack := rest, instruction_ptr := Addr (handler top_block)\<rparr>)) \<and>
             (kind top_block \<noteq> ''catch'' \<and> kind top_block \<noteq> ''defer'' \<longrightarrow>
                step cm s = Inl (Exception ''unexpected block type''))"
      by blast
  qed
  have 2: "(\<forall>f\<in>set (function_stack s). \<not> frame_eq (locals s) (owner top_block) f) \<longrightarrow>
          (\<exists>e. step cm s = Inl e)"
  proof
    assume "\<forall>f\<in>set (function_stack s). \<not> frame_eq (locals s) (owner top_block) f"
    then have "pop_frames (locals ?s) (owner top_block) (function_stack ?s) = None"
      by (simp add: pop_frames_None)
    from unwind_block_exception_fatal [OF r bs' this] st
    show "\<exists>e. step cm s = Inl e" by simp
  qed
  from 1 2 show ?thesis by blast
qed

text \<open>
  In \<^verbatim>\<open>prog_callee_throw\<close> the function \<^verbatim>\<open>f\<close> throws into the catch region of
  \<^verbatim>\<open>main\<close>: the frame of \<^verbatim>\<open>f\<close> is popped, the catch block is popped and control goes
  to the handler at 10. In the prototype's program on the input 7 and 7 the throw of
  \<^verbatim>\<open>prevent_14\<close> finds its own defer block on top and enters it at 85.
\<close>

theorem exception_unwind_witness:
  "run prog_callee_throw 6 (init_state []) = Inr st_callee_throw \<and>
   step prog_callee_throw st_callee_throw =
     Inr (st_callee_throw\<lparr>function_stack := [main_frame], block_stack := [],
            instruction_ptr := Addr 10\<rparr>) \<and>
   (\<exists>popped rest. function_stack st_callee_throw = popped @ rest \<and> rest \<noteq> [] \<and>
      frame_eq (locals st_callee_throw) (owner caller_catch) (hd rest) \<and>
      step prog_callee_throw st_callee_throw =
        Inr (st_callee_throw\<lparr>unwind_reason := None, function_stack := rest, block_stack := [],
               instruction_ptr := Addr (handler caller_catch)\<rparr>)) \<and>
   (\<exists>popped rest. function_stack st_throw_14 = popped @ rest \<and> rest \<noteq> [] \<and>
      frame_eq (locals st_throw_14) (owner defer_p14) (hd rest) \<and>
      step code_memory st_throw_14 =
        Inr (st_throw_14\<lparr>unwind_reason := Some UNWIND_EXCEPTION, function_stack := rest,
               instruction_ptr := Addr (handler defer_p14)\<rparr>)) \<and>
   step code_memory st_throw_14 =
     Inr (st_throw_14\<lparr>unwind_reason := Some UNWIND_EXCEPTION, instruction_ptr := Addr 85\<rparr>)"
proof -
  have a: "instruction_ptr st_callee_throw = Addr 17"
    "block_stack st_callee_throw = caller_catch # []"
    "\<exists>b\<in>set (block_stack st_callee_throw). kind b = ''catch''"
    "\<exists>f\<in>set (function_stack st_callee_throw).
       frame_eq (locals st_callee_throw) (owner caller_catch) f"
    "kind caller_catch = ''catch''"
    by (simp_all add: st_callee_throw_def caller_catch_def callee_frame_def main_frame_def)
  have m: "at prog_callee_throw 17 = Some (I OP_THROW)" "at code_memory 93 = Some (I OP_THROW)"
    by code_simp+
  have b: "instruction_ptr st_throw_14 = Addr 93"
    "block_stack st_throw_14 = defer_p14 # [defer_main, catch_main]"
    "\<exists>b\<in>set (block_stack st_throw_14). kind b = ''catch''"
    "\<exists>f\<in>set (function_stack st_throw_14). frame_eq (locals st_throw_14) (owner defer_p14) f"
    "kind defer_p14 = ''defer''"
    by (simp_all add: st_throw_14_def frame_defs)
  have s1: "step prog_callee_throw st_callee_throw =
     Inr (st_callee_throw\<lparr>function_stack := [main_frame], block_stack := [],
            instruction_ptr := Addr 10\<rparr>)" by code_simp
  have s2: "step code_memory st_throw_14 =
     Inr (st_throw_14\<lparr>unwind_reason := Some UNWIND_EXCEPTION, instruction_ptr := Addr 85\<rparr>)"
    by code_simp
  from exception_unwind [OF a(1) m(1) a(3) a(2)] a(4,5)
  have 1: "\<exists>popped rest. function_stack st_callee_throw = popped @ rest \<and> rest \<noteq> [] \<and>
      frame_eq (locals st_callee_throw) (owner caller_catch) (hd rest) \<and>
      step prog_callee_throw st_callee_throw =
        Inr (st_callee_throw\<lparr>unwind_reason := None, function_stack := rest, block_stack := [],
               instruction_ptr := Addr (handler caller_catch)\<rparr>)"
    by blast
  from exception_unwind [OF b(1) m(2) b(3) b(2)] b(4,5)
  have 2: "\<exists>popped rest. function_stack st_throw_14 = popped @ rest \<and> rest \<noteq> [] \<and>
      frame_eq (locals st_throw_14) (owner defer_p14) (hd rest) \<and>
      step code_memory st_throw_14 =
        Inr (st_throw_14\<lparr>unwind_reason := Some UNWIND_EXCEPTION, function_stack := rest,
               instruction_ptr := Addr (handler defer_p14)\<rparr>)"
    by blast
  have s0: "run prog_callee_throw 6 (init_state []) = Inr st_callee_throw" by code_simp
  from s0 s1 1 2 s2 show ?thesis by blast
qed

section \<open>Return unwind\<close>


lemma unwind_block_outer_defer:
  assumes r: "unwind_reason s = Some UNWIND_RETURN" and fs: "function_stack s = f # fs"
    and ld: "last_block ''defer'' (block_stack s) = Some d"
    and ow: "\<not> frame_eq (locals s) (owner d) f"
  shows "unwind_block s =
           Inr (s\<lparr>instruction_ptr := ret f, unwind_reason := None, function_stack := fs,
                  block_stack :=
                    dropWhile (\<lambda>b. frame_eq (locals s) (owner b) f) (block_stack s)\<rparr>)"
proof -
  from ld obtain b0 bs0 where "block_stack s = b0 # bs0"
    by (cases "block_stack s") (auto simp: last_block_def)
  with r fs ld ow show ?thesis by (simp add: unwind_block_def)
qed









text \<open>
  Claim C5. When a return unwind finds the nearest defer block owned by another frame
  than the returning one, the blocks on top that the returning frame owns are
  discarded, the frame is popped, control goes to its return address and the reason
  is cleared. The defer block stays on the block stack, still the nearest defer
  block, and is not entered.
\<close>

theorem return_outer_defer:
  assumes r: "unwind_reason s = Some UNWIND_RETURN" and fs: "function_stack s = f # fs"
    and ld: "last_block ''defer'' (block_stack s) = Some d"
    and ow: "\<not> frame_eq (locals s) (owner d) f"
  shows "\<exists>discarded kept.
           block_stack s = discarded @ kept \<and>
           (\<forall>b\<in>set discarded. frame_eq (locals s) (owner b) f \<and> kind b \<noteq> ''defer'') \<and>
           kept \<noteq> [] \<and> \<not> frame_eq (locals s) (owner (hd kept)) f \<and>
           last_block ''defer'' kept = Some d \<and>
           unwind_block s =
             Inr (s\<lparr>instruction_ptr := ret f, unwind_reason := None, function_stack := fs,
                    block_stack := kept\<rparr>)"
proof -
  let ?P = "\<lambda>b. frame_eq (locals s) (owner b) f"
  let ?dis = "takeWhile ?P (block_stack s)"
  let ?kept = "dropWhile ?P (block_stack s)"
  from last_block_split [OF ld] obtain upper lower where
    sp: "block_stack s = upper @ d # lower" and up: "\<forall>b\<in>set upper. kind b \<noteq> ''defer''"
    and k: "kind d = ''defer''" by blast
  have din: "d \<in> set (block_stack s)" using sp by simp
  have tk: "?dis = takeWhile ?P upper"
  proof (cases "\<forall>b\<in>set upper. ?P b")
    case True
    have e1: "takeWhile ?P (upper @ d # lower) = upper"
      using True ow by (simp add: takeWhile_append2)
    have e2: "takeWhile ?P upper = upper" using True by (simp add: takeWhile_eq_all_conv)
    show ?thesis unfolding sp e1 e2 by (rule refl)
  next
    case False
    then obtain x where "x \<in> set upper" "\<not> ?P x" by blast
    then show ?thesis using sp takeWhile_append1 [of x upper ?P "d # lower"] by simp
  qed
  have kp: "?kept = dropWhile ?P upper @ d # lower"
  proof (cases "\<forall>b\<in>set upper. ?P b")
    case True
    with sp ow show ?thesis by (simp add: dropWhile_append2)
  next
    case False
    then obtain x where "x \<in> set upper" "\<not> ?P x" by blast
    then show ?thesis using sp dropWhile_append1 [of x upper ?P "d # lower"] by simp
  qed
  have 1: "block_stack s = ?dis @ ?kept" by simp
  have 2: "\<forall>b\<in>set ?dis. frame_eq (locals s) (owner b) f \<and> kind b \<noteq> ''defer''"
  proof
    fix b assume b: "b \<in> set ?dis"
    then have "?P b" by (rule set_takeWhileD [THEN conjunct2])
    moreover from b tk have "b \<in> set upper" by (auto dest: set_takeWhileD)
    ultimately show "frame_eq (locals s) (owner b) f \<and> kind b \<noteq> ''defer''" using up by simp
  qed
  have 3: "?kept \<noteq> []" using kp by simp
  then have 4: "\<not> ?P (hd ?kept)" using hd_dropWhile [of ?P "block_stack s"] by simp
  have "\<forall>b\<in>set (dropWhile ?P upper). kind b \<noteq> ''defer''"
    using up by (auto dest: set_dropWhileD)
  then have 5: "last_block ''defer'' ?kept = Some d"
    using kp k by (simp add: last_block_append)
  have 6: "unwind_block s =
             Inr (s\<lparr>instruction_ptr := ret f, unwind_reason := None, function_stack := fs,
                    block_stack := ?kept\<rparr>)"
    using r fs ld ow by (rule unwind_block_outer_defer)
  from 1 2 3 4 5 6 show ?thesis by blast
qed

text \<open>
  The continue that ends the defer body of \<^verbatim>\<open>add\<close> in the prototype's program pops the
  defer block of \<^verbatim>\<open>add\<close> and enters the return unwind again: the nearest defer block is
  the one of \<^verbatim>\<open>prevent_14\<close>, so the frame of \<^verbatim>\<open>add\<close> is popped and control goes to its
  return address 73.
\<close>

theorem return_outer_defer_witness:
  "step code_memory st_continue =
     Inr (st_continue\<lparr>instruction_ptr := Addr 73, unwind_reason := None,
            function_stack := [p14_frame, main_frame],
            block_stack := [defer_p14, defer_main, catch_main]\<rparr>) \<and>
   (\<exists>discarded kept.
      [defer_p14, defer_main, catch_main] = discarded @ kept \<and>
      last_block ''defer'' kept = Some defer_p14 \<and>
      unwind_block (st_continue\<lparr>block_stack := [defer_p14, defer_main, catch_main]\<rparr>) =
        Inr (st_continue\<lparr>instruction_ptr := ret add_frame, unwind_reason := None,
               function_stack := [p14_frame, main_frame], block_stack := kept\<rparr>))"
proof -
  let ?s = "st_continue\<lparr>block_stack := [defer_p14, defer_main, catch_main]\<rparr>"
  have a: "unwind_reason ?s = Some UNWIND_RETURN"
    "function_stack ?s = add_frame # [p14_frame, main_frame]"
    "block_stack ?s = [defer_p14, defer_main, catch_main]"
    by (simp_all add: st_continue_def)
  have l: "last_block ''defer'' (block_stack ?s) = Some defer_p14"
    by (simp add: st_continue_def last_block_def defer_p14_def)
  have n: "\<not> frame_eq (locals ?s) (owner defer_p14) add_frame"
    by (simp add: st_continue_def frame_defs)
  have st: "step code_memory st_continue =
     Inr (st_continue\<lparr>instruction_ptr := Addr 73, unwind_reason := None,
            function_stack := [p14_frame, main_frame],
            block_stack := [defer_p14, defer_main, catch_main]\<rparr>)"
    by code_simp
  from return_outer_defer [OF a(1,2) l n] a(3)
  have "\<exists>discarded kept.
      [defer_p14, defer_main, catch_main] = discarded @ kept \<and>
      last_block ''defer'' kept = Some defer_p14 \<and>
      unwind_block ?s =
        Inr (st_continue\<lparr>instruction_ptr := ret add_frame, unwind_reason := None,
               function_stack := [p14_frame, main_frame], block_stack := kept\<rparr>)"
    by auto
  with st show ?thesis by blast
qed

end
